theory Spec2Isabelle
  imports
    Main
    "HOL-Library.Char_ord"
    "HOL-Library.List_Lexorder"
    "HOL-Library.Product_Lexorder"
    "HOL-Library.Multiset"
    "HOL-Library.Sublist"
begin

section \<open>The broker inventory CLI (tools/optout_cli.py)\<close>

text \<open>
  A shallow embedding of \<^verbatim>\<open>tools/optout_cli.py\<close>. Python values that the inventory can
  hold are modelled as follows.

  \<^item> A Python \<^verbatim>\<open>str\<close> is a \<^typ>\<open>string\<close>; each \<^typ>\<open>char\<close> stands for the code point of
    the same number, so the model covers text whose code points are below 256. On that
    range \<^verbatim>\<open>str.lower\<close>, \<^verbatim>\<open>str.strip\<close>, \<^verbatim>\<open>len\<close> and the ordering of strings are
    written out exactly; the order on \<^typ>\<open>string\<close> is the lexicographic order on code
    points, which is how Python compares strings.
  \<^item> A field value of a record is a JSON scalar: \<^verbatim>\<open>null\<close>, a boolean, an integer or a
    string. Floating-point numbers and values nested inside a record are outside the
    model.
  \<^item> A record (\<^verbatim>\<open>Dict[str, Any]\<close>) is an association list in insertion order,
    looked up with \<^const>\<open>map_of\<close>. Python dictionaries have unique keys, so a record
    that the program can hold has no key twice.
  \<^item> Every \<^verbatim>\<open>raise\<close> is a value \<open>Inl e\<close> of a sum type.
\<close>

subsection \<open>Values, records and errors\<close>

datatype jval = JNull | JBool bool | JInt int | JStr string

type_synonym broker = "(string \<times> jval) list"

datatype error =
    ArgumentTypeError string
  | SystemExit string
  | FileNotFoundError
  | JSONDecodeError
  | ReadError
  | DecoderError
  | AttributeError
  | TypeError
  | ValueError

text \<open>\<^verbatim>\<open>broker.get(key)\<close>: the value stored under the key, \<^verbatim>\<open>None\<close> when the key is missing.\<close>

definition dict_get :: "broker \<Rightarrow> string \<Rightarrow> jval" where
  "dict_get d k = (case map_of d k of None \<Rightarrow> JNull | Some v \<Rightarrow> v)"

text \<open>\<^verbatim>\<open>broker.get(key, default)\<close>.\<close>

definition dict_get_default :: "broker \<Rightarrow> string \<Rightarrow> jval \<Rightarrow> jval" where
  "dict_get_default d k dflt = (case map_of d k of None \<Rightarrow> dflt | Some v \<Rightarrow> v)"

subsection \<open>Strings\<close>

text \<open>
  The characters that \<^verbatim>\<open>str.strip()\<close> removes (those for which \<^verbatim>\<open>str.isspace\<close> holds)
  among the code points below 256: TAB, LF, VT, FF, CR, the separators 0x1C to 0x1F,
  the space, NEL (0x85) and the no-break space (0xA0).
\<close>

definition is_space :: "char \<Rightarrow> bool" where
  "is_space c = ((of_char c :: nat) \<in> {9, 10, 11, 12, 13, 28, 29, 30, 31, 32, 133, 160})"

definition strip :: "string \<Rightarrow> string" where
  "strip s = rev (dropWhile is_space (rev (dropWhile is_space s)))"

text \<open>
  \<^verbatim>\<open>str.lower()\<close> below code point 256: the letters A to Z, and the Latin-1 capitals
  0xC0 to 0xDE without the multiplication sign 0xD7, move up by 32.
\<close>

definition is_upper :: "char \<Rightarrow> bool" where
  "is_upper c = (let n = (of_char c :: nat) in
     (65 \<le> n \<and> n \<le> 90) \<or> (192 \<le> n \<and> n \<le> 222 \<and> n \<noteq> 215))"

definition lower_char :: "char \<Rightarrow> char" where
  "lower_char c = (if is_upper c then char_of ((of_char c :: nat) + 32) else c)"

definition lower :: "string \<Rightarrow> string" where
  "lower s = map lower_char s"

subsection \<open>parse_bool\<close>

definition parse_bool :: "string \<Rightarrow> error + bool" where
  "parse_bool v =
     (let normalized = lower (strip v) in
      if normalized \<in> {''true'', ''1'', ''yes'', ''y''} then Inr True
      else if normalized \<in> {''false'', ''0'', ''no'', ''n''} then Inr False
      else Inl (ArgumentTypeError (''Invalid boolean value: '' @ v)))"

subsection \<open>filter_inventory\<close>

text \<open>
  The truth value of \<^verbatim>\<open>priority\<close> and of \<^verbatim>\<open>category\<close> in the conditions
  \<^verbatim>\<open>if priority and ...\<close>: \<^verbatim>\<open>None\<close> and the empty string are false.
\<close>

definition truthy :: "string option \<Rightarrow> bool" where
  "truthy s = (case s of None \<Rightarrow> False | Some t \<Rightarrow> t \<noteq> [])"

text \<open>
  The body of the loop: \<open>True\<close> when no \<^verbatim>\<open>continue\<close> is taken and the record is
  appended. \<^verbatim>\<open>!=\<close> against a string holds unless the field is that string;
  \<^verbatim>\<open>is not\<close> against a boolean holds unless the field is that boolean.
\<close>

definition passes ::
  "broker \<Rightarrow> string option \<Rightarrow> bool option \<Rightarrow> bool option \<Rightarrow> bool option \<Rightarrow> string option \<Rightarrow> bool"
where
  "passes broker priority requires_phone requires_id requires_payment category =
     (if truthy priority \<and> dict_get broker ''priority'' \<noteq> JStr (the priority) then False
      else if requires_phone \<noteq> None \<and>
              dict_get broker ''requires_phone'' \<noteq> JBool (the requires_phone) then False
      else if requires_id \<noteq> None \<and>
              dict_get broker ''requires_id'' \<noteq> JBool (the requires_id) then False
      else if requires_payment \<noteq> None \<and>
              dict_get broker ''requires_payment'' \<noteq> JBool (the requires_payment) then False
      else if truthy category \<and> dict_get broker ''category'' \<noteq> JStr (the category) then False
      else True)"

fun filter_loop ::
  "broker list \<Rightarrow> string option \<Rightarrow> bool option \<Rightarrow> bool option \<Rightarrow> bool option \<Rightarrow> string option
     \<Rightarrow> broker list \<Rightarrow> broker list"
where
  "filter_loop [] priority requires_phone requires_id requires_payment category filtered =
     filtered"
| "filter_loop (broker # rest) priority requires_phone requires_id requires_payment category
     filtered =
     (if passes broker priority requires_phone requires_id requires_payment category
      then filter_loop rest priority requires_phone requires_id requires_payment category
             (filtered @ [broker])
      else filter_loop rest priority requires_phone requires_id requires_payment category
             filtered)"

definition filter_inventory ::
  "broker list \<Rightarrow> string option \<Rightarrow> bool option \<Rightarrow> bool option \<Rightarrow> bool option \<Rightarrow> string option
     \<Rightarrow> broker list"
where
  "filter_inventory brokers priority requires_phone requires_id requires_payment category =
     filter_loop brokers priority requires_phone requires_id requires_payment category []"

subsection \<open>sort_brokers\<close>

text \<open>\<^verbatim>\<open>PRIORITY_ORDER.get(p, 99)\<close>: only the three strings are keys of the table.\<close>

definition priority_rank :: "jval \<Rightarrow> int" where
  "priority_rank p =
     (if p = JStr ''crucial'' then 0
      else if p = JStr ''high'' then 1
      else if p = JStr ''normal'' then 2
      else 99)"

text \<open>The key of the \<^verbatim>\<open>lambda\<close>: a pair of the rank and of \<^verbatim>\<open>broker.get("name", "")\<close>.\<close>

definition sort_key_of :: "broker \<Rightarrow> int \<times> jval" where
  "sort_key_of broker =
     (priority_rank (dict_get broker ''priority''),
      dict_get_default broker ''name'' (JStr ''''))"

text \<open>
  Python's \<^verbatim>\<open>==\<close> and \<^verbatim>\<open><\<close> on scalars. A boolean is an integer (0 or 1); two strings
  compare by code points; any other pairing has no order and \<^verbatim>\<open><\<close> raises TypeError.
\<close>

definition int_like :: "jval \<Rightarrow> int option" where
  "int_like v = (case v of JBool b \<Rightarrow> Some (if b then 1 else 0) | JInt i \<Rightarrow> Some i | _ \<Rightarrow> None)"

definition py_eq :: "jval \<Rightarrow> jval \<Rightarrow> bool" where
  "py_eq a b =
     (case (int_like a, int_like b) of
        (Some i, Some j) \<Rightarrow> i = j
      | _ \<Rightarrow> a = b)"

definition py_lt :: "jval \<Rightarrow> jval \<Rightarrow> error + bool" where
  "py_lt a b =
     (case (a, b) of
        (JStr s, JStr t) \<Rightarrow> Inr (s < t)
      | _ \<Rightarrow> (case (int_like a, int_like b) of
                (Some i, Some j) \<Rightarrow> Inr (i < j)
              | _ \<Rightarrow> Inl TypeError))"

text \<open>
  \<^verbatim>\<open><\<close> on the key tuples: the first position where the tuples differ (by \<^verbatim>\<open>==\<close>)
  decides, and only there \<^verbatim>\<open><\<close> is applied.
\<close>

definition key_lt :: "int \<times> jval \<Rightarrow> int \<times> jval \<Rightarrow> error + bool" where
  "key_lt a b =
     (if fst a \<noteq> fst b then Inr (fst a < fst b)
      else if py_eq (snd a) (snd b) then Inr False
      else py_lt (snd a) (snd b))"

text \<open>
  The builtin \<^verbatim>\<open>sorted\<close> is a stable sort that compares keys with \<^verbatim>\<open><\<close> only. It is
  modelled by stable insertion: an element goes in front of the first element of the
  sorted rest whose key is not smaller than its own. Where every comparison succeeds the
  order on the keys is total and every stable sort returns this list. A comparison that
  raises ends the sort with that error.
\<close>

fun insort_lt :: "broker \<Rightarrow> broker list \<Rightarrow> error + broker list" where
  "insort_lt x [] = Inr [x]"
| "insort_lt x (y # ys) =
     (case key_lt (sort_key_of y) (sort_key_of x) of
        Inl e \<Rightarrow> Inl e
      | Inr True \<Rightarrow> (case insort_lt x ys of Inl e \<Rightarrow> Inl e | Inr zs \<Rightarrow> Inr (y # zs))
      | Inr False \<Rightarrow> Inr (x # y # ys))"

fun sorted_by_key :: "broker list \<Rightarrow> error + broker list" where
  "sorted_by_key [] = Inr []"
| "sorted_by_key (x # xs) =
     (case sorted_by_key xs of Inl e \<Rightarrow> Inl e | Inr ys \<Rightarrow> insort_lt x ys)"

definition sort_brokers :: "broker list \<Rightarrow> error + broker list" where
  "sort_brokers brokers = sorted_by_key brokers"

subsection \<open>Text helpers\<close>

definition digit_char :: "nat \<Rightarrow> char" where
  "digit_char d = char_of (48 + d)"

fun show_nat :: "nat \<Rightarrow> string" where
  "show_nat n = (if n < 10 then [digit_char n] else show_nat (n div 10) @ [digit_char (n mod 10)])"

declare show_nat.simps [simp del]

definition show_int :: "int \<Rightarrow> string" where
  "show_int i = (if i < 0 then CHR ''-'' # show_nat (nat (- i)) else show_nat (nat i))"

text \<open>\<^verbatim>\<open>str(v)\<close> on a scalar.\<close>

definition py_str :: "jval \<Rightarrow> string" where
  "py_str v =
     (case v of
        JNull \<Rightarrow> ''None''
      | JBool b \<Rightarrow> (if b then ''True'' else ''False'')
      | JInt i \<Rightarrow> show_int i
      | JStr s \<Rightarrow> s)"

text \<open>\<^verbatim>\<open>sep.join(parts)\<close>.\<close>

fun join :: "string \<Rightarrow> string list \<Rightarrow> string" where
  "join sep [] = []"
| "join sep [x] = x"
| "join sep (x # y # ys) = x @ sep @ join sep (y # ys)"

definition ljust :: "nat \<Rightarrow> string \<Rightarrow> string" where
  "ljust width s = s @ replicate (width - length s) CHR '' ''"

definition LF :: char where "LF = CHR 0x0A"
definition CR :: char where "CR = CHR 0x0D"
definition DQ :: char where "DQ = CHR 0x22"
definition BSL :: char where "BSL = CHR 0x5C"

subsection \<open>render_table\<close>

definition table_header :: "string list" where
  "table_header =
     [''Name'', ''Priority'', ''Requires Phone'', ''Requires ID'', ''Requires Payment'',
      ''Category'']"

text \<open>
  One row of the table, as the list of Python values the code builds. The three flags
  are already strings; name, priority and category are whatever the record holds.
\<close>

definition table_row :: "broker \<Rightarrow> jval list" where
  "table_row broker =
     [dict_get_default broker ''name'' (JStr ''''),
      dict_get_default broker ''priority'' (JStr ''''),
      JStr (lower (py_str (dict_get_default broker ''requires_phone'' (JBool False)))),
      JStr (lower (py_str (dict_get_default broker ''requires_id'' (JBool False)))),
      JStr (lower (py_str (dict_get_default broker ''requires_payment'' (JBool False)))),
      dict_get_default broker ''category'' (JStr '''')]"

text \<open>
  \<^verbatim>\<open>len(row[idx])\<close> and \<^verbatim>\<open>value.ljust\<close> need a string: any other value in a row raises
  TypeError while the column widths are computed, before a line is built.
\<close>

fun row_cells :: "jval list \<Rightarrow> error + string list" where
  "row_cells [] = Inr []"
| "row_cells (JStr s # vs) =
     (case row_cells vs of Inl e \<Rightarrow> Inl e | Inr ss \<Rightarrow> Inr (s # ss))"
| "row_cells (_ # vs) = Inl TypeError"

fun all_rows :: "jval list list \<Rightarrow> error + string list list" where
  "all_rows [] = Inr []"
| "all_rows (r # rs) =
     (case row_cells r of
        Inl e \<Rightarrow> Inl e
      | Inr cells \<Rightarrow> (case all_rows rs of Inl e \<Rightarrow> Inl e | Inr rest \<Rightarrow> Inr (cells # rest)))"

text \<open>\<^verbatim>\<open>max(...)\<close> of a non-empty list of lengths.\<close>

definition maximum :: "nat list \<Rightarrow> nat" where
  "maximum ns = foldr max ns 0"

definition render_rows :: "string list list \<Rightarrow> string" where
  "render_rows rows =
     (let col_widths =
            map (\<lambda>idx. maximum (map (\<lambda>row. length (row ! idx)) rows))
              [0 ..< length (hd rows)];
          line = (\<lambda>row. join '' | ''
                    (map (\<lambda>(width, value). ljust width value) (zip col_widths row)));
          separator = join '' | '' (map (\<lambda>width. replicate width CHR ''-'') col_widths)
      in join [LF] (line (hd rows) # separator # map line (tl rows)))"

definition render_table :: "broker list \<Rightarrow> error + string" where
  "render_table brokers =
     (case all_rows (map JStr table_header # map table_row brokers) of
        Inl e \<Rightarrow> Inl e
      | Inr rows \<Rightarrow> Inr (render_rows rows))"

subsection \<open>What a run leaves behind\<close>

text \<open>
  The observable result of a call that writes: the text sent to standard output, the
  file written (path and content) if any, and the exception that ended the call, if any.
  Creating the parent directories and failures of the write itself are not modelled.
\<close>

record outcome =
  out_stdout :: string
  out_file :: "(string \<times> string) option"
  out_status :: "error option"

definition failed :: "error \<Rightarrow> outcome" where
  "failed e = \<lparr>out_stdout = [], out_file = None, out_status = Some e\<rparr>"

definition emit :: "string option \<Rightarrow> string \<Rightarrow> error option \<Rightarrow> outcome" where
  "emit output text st =
     (case output of
        Some path \<Rightarrow> \<lparr>out_stdout = [], out_file = Some (path, text), out_status = st\<rparr>
      | None \<Rightarrow> \<lparr>out_stdout = text, out_file = None, out_status = st\<rparr>)"

subsection \<open>export_csv\<close>

definition fieldnames :: "string list" where
  "fieldnames =
     [''name'', ''priority'', ''category'', ''requires_phone'', ''requires_id'',
      ''requires_payment'', ''opt_out_url'']"

text \<open>
  The \<^verbatim>\<open>csv\<close> writer with the default (excel) dialect: \<^verbatim>\<open>None\<close> is written as the
  empty field, a string as it is, anything else through \<^verbatim>\<open>str\<close>; a field holding a
  comma, a double quote, CR or LF is put in double quotes with its quotes doubled; fields
  are joined by commas and the line ends with CR LF.
\<close>

definition csv_field :: "jval \<Rightarrow> string" where
  "csv_field v = (case v of JNull \<Rightarrow> [] | _ \<Rightarrow> py_str v)"

definition needs_quote :: "string \<Rightarrow> bool" where
  "needs_quote s = list_ex (\<lambda>c. c = CHR '','' \<or> c = DQ \<or> c = CR \<or> c = LF) s"

definition csv_quote :: "string \<Rightarrow> string" where
  "csv_quote s =
     (if needs_quote s
      then DQ # concat (map (\<lambda>c. if c = DQ then [DQ, DQ] else [c]) s) @ [DQ]
      else s)"

definition csv_line :: "string list \<Rightarrow> string" where
  "csv_line cells = join '','' (map csv_quote cells) @ [CR, LF]"

text \<open>
  \<^verbatim>\<open>DictWriter._dict_to_list\<close> with the defaults \<^verbatim>\<open>restval=""\<close> and
  \<^verbatim>\<open>extrasaction="raise"\<close>: a key outside \<open>fieldnames\<close> raises ValueError.
\<close>

definition dict_to_list :: "broker \<Rightarrow> error + jval list" where
  "dict_to_list rowdict =
     (if list_ex (\<lambda>k. k \<notin> set fieldnames) (map fst rowdict) then Inl ValueError
      else Inr (map (\<lambda>key. dict_get_default rowdict key (JStr '''')) fieldnames))"

text \<open>
  \<^verbatim>\<open>writer.writerows(rows)\<close> converts and writes one record after the other; the lines
  written before a record that raises stay written.
\<close>

fun writerows :: "broker list \<Rightarrow> string \<Rightarrow> string \<times> error option" where
  "writerows [] written = (written, None)"
| "writerows (row # rows) written =
     (case dict_to_list row of
        Inl e \<Rightarrow> (written, Some e)
      | Inr values \<Rightarrow> writerows rows (written @ csv_line (map csv_field values)))"

definition writeheader :: string where
  "writeheader = csv_line fieldnames"

definition export_csv :: "broker list \<Rightarrow> string option \<Rightarrow> outcome" where
  "export_csv brokers output =
     (case writerows brokers writeheader of (text, st) \<Rightarrow> emit output text st)"

subsection \<open>export_json\<close>

text \<open>
  \<^verbatim>\<open>json.dumps(payload, indent=2, sort_keys=True)\<close> on a list of records. Strings are
  written with \<^verbatim>\<open>ensure_ascii\<close>: the quote and the backslash are escaped, BS, FF, LF, CR
  and TAB have their short escapes, every other code point outside 0x20 to 0x7E is
  written as a four-digit lowercase hexadecimal escape.
\<close>

definition hex_char :: "nat \<Rightarrow> char" where
  "hex_char d = (if d < 10 then char_of (48 + d) else char_of (87 + d))"

definition escape_char :: "char \<Rightarrow> string" where
  "escape_char c =
     (let n = (of_char c :: nat) in
      if c = DQ then [BSL, DQ]
      else if c = BSL then [BSL, BSL]
      else if n = 8 then [BSL, CHR ''b'']
      else if n = 12 then [BSL, CHR ''f'']
      else if n = 10 then [BSL, CHR ''n'']
      else if n = 13 then [BSL, CHR ''r'']
      else if n = 9 then [BSL, CHR ''t'']
      else if n < 32 \<or> 126 < n
        then [BSL, CHR ''u'', CHR ''0'', CHR ''0'', hex_char (n div 16), hex_char (n mod 16)]
      else [c])"

definition encode_str :: "string \<Rightarrow> string" where
  "encode_str s = DQ # concat (map escape_char s) @ [DQ]"

definition dumps_scalar :: "jval \<Rightarrow> string" where
  "dumps_scalar v =
     (case v of
        JNull \<Rightarrow> ''null''
      | JBool b \<Rightarrow> (if b then ''true'' else ''false'')
      | JInt i \<Rightarrow> show_int i
      | JStr s \<Rightarrow> encode_str s)"

text \<open>
  A record at nesting level 1 of the array: its items sorted by key, one per line at
  indentation 4, the closing brace at indentation 2.
\<close>

definition dumps_item :: "string \<times> jval \<Rightarrow> string" where
  "dumps_item kv = ''    '' @ encode_str (fst kv) @ '': '' @ dumps_scalar (snd kv)"

definition dumps_dict :: "broker \<Rightarrow> string" where
  "dumps_dict d =
     (if d = [] then ''{}''
      else ''{'' @ [LF] @ join ('','' @ [LF]) (map dumps_item (sort_key fst d))
             @ [LF] @ ''  }'')"

definition dumps :: "broker list \<Rightarrow> string" where
  "dumps payload =
     (if payload = [] then ''[]''
      else ''['' @ [LF] @ join ('','' @ [LF]) (map (\<lambda>d. ''  '' @ dumps_dict d) payload)
             @ [LF] @ '']'')"

definition export_json :: "broker list \<Rightarrow> string option \<Rightarrow> outcome" where
  "export_json brokers output =
     (case output of
        Some path \<Rightarrow> \<lparr>out_stdout = [], out_file = Some (path, dumps brokers), out_status = None\<rparr>
      | None \<Rightarrow> \<lparr>out_stdout = dumps brokers @ [LF], out_file = None, out_status = None\<rparr>)"

subsection \<open>load_inventory\<close>

text \<open>
  A decoded JSON document, as far as the program looks into it: a scalar, an object
  holding scalars, or an array.
\<close>

datatype json = JScalar jval | JObject broker | JArray "json list"

text \<open>
  What \<^verbatim>\<open>path.read_text(encoding="utf-8")\<close> does on a path: the file is missing
  (FileNotFoundError), it cannot be read or decoded (any other exception), or it has
  content.
\<close>

datatype read_result = NotFound | Unreadable | Content string

text \<open>
  What \<^verbatim>\<open>json.loads\<close> does on a text: it raises JSONDecodeError (the text is not
  JSON), it raises another exception (ValueError for an integer literal longer than the
  interpreter's digit limit, RecursionError for a document nested too deeply), or it
  returns the decoded document.
\<close>

datatype decode_result = Invalid | DecodeFailure | Decoded json

text \<open>
  The file system (\<open>read_text\<close>) and the decoder of the standard library
  (\<open>loads\<close>) are parameters. Only FileNotFoundError and JSONDecodeError are caught;
  any other exception of the read (\<open>ReadError\<close>) or of the decoder
  (\<open>DecoderError\<close>) leaves the function as it is, uncaught.
\<close>

definition load_inventory ::
  "(string \<Rightarrow> read_result) \<Rightarrow> (string \<Rightarrow> decode_result) \<Rightarrow> string
     \<Rightarrow> error + json list"
where
  "load_inventory read_text loads path =
     (case read_text path of
        NotFound \<Rightarrow> Inl (SystemExit (''Inventory file not found: '' @ path))
      | Unreadable \<Rightarrow> Inl ReadError
      | Content text \<Rightarrow>
          (case loads text of
             Invalid \<Rightarrow> Inl (SystemExit (''Inventory file is not valid JSON: '' @ path))
           | DecodeFailure \<Rightarrow> Inl DecoderError
           | Decoded data \<Rightarrow>
               (case data of
                  JArray items \<Rightarrow> Inr items
                | _ \<Rightarrow> Inl (SystemExit ''Inventory file must contain a list of brokers.''))))"

subsection \<open>main\<close>

datatype format = Csv | Json

datatype command = List | Filter | Export format "string option"

text \<open>
  The command line after \<^verbatim>\<open>argparse\<close> has split it: the boolean options still hold the
  token the user typed, since \<^verbatim>\<open>argparse\<close> converts them with \<open>parse_bool\<close>.
\<close>

record cli =
  cli_inventory :: string
  cli_command :: command
  cli_priority :: "string option"
  cli_requires_phone :: "string option"
  cli_requires_id :: "string option"
  cli_requires_payment :: "string option"
  cli_category :: "string option"

record args =
  arg_inventory :: string
  arg_command :: command
  arg_priority :: "string option"
  arg_requires_phone :: "bool option"
  arg_requires_id :: "bool option"
  arg_requires_payment :: "bool option"
  arg_category :: "string option"

text \<open>
  \<^verbatim>\<open>type=parse_bool\<close> on an optional argument: an absent option stays \<^verbatim>\<open>None\<close>; a
  token that \<open>parse_bool\<close> rejects makes \<^verbatim>\<open>parse_args\<close> report the error and exit
  with status 2.
\<close>

definition convert_bool :: "string option \<Rightarrow> error + bool option" where
  "convert_bool tok =
     (case tok of
        None \<Rightarrow> Inr None
      | Some t \<Rightarrow> (case parse_bool t of Inl e \<Rightarrow> Inl (SystemExit ''2'') | Inr b \<Rightarrow> Inr (Some b)))"

definition priority_choices :: "string list" where
  "priority_choices = [''crucial'', ''high'', ''normal'']"

definition parse_args :: "cli \<Rightarrow> error + args" where
  "parse_args c =
     (if (case cli_priority c of None \<Rightarrow> False | Some p \<Rightarrow> p \<notin> set priority_choices)
      then Inl (SystemExit ''2'')
      else
        (case convert_bool (cli_requires_phone c) of Inl e \<Rightarrow> Inl e | Inr phone \<Rightarrow>
        (case convert_bool (cli_requires_id c) of Inl e \<Rightarrow> Inl e | Inr ident \<Rightarrow>
        (case convert_bool (cli_requires_payment c) of Inl e \<Rightarrow> Inl e | Inr payment \<Rightarrow>
           Inr \<lparr>arg_inventory = cli_inventory c, arg_command = cli_command c,
                arg_priority = cli_priority c, arg_requires_phone = phone,
                arg_requires_id = ident, arg_requires_payment = payment,
                arg_category = cli_category c\<rparr>))))"

text \<open>
  Every element of the loaded list reaches a \<^verbatim>\<open>broker.get\<close>, in the filter or, when no
  filter is active, in the sort key; an element that is not an object raises
  AttributeError there, before anything is compared or written.
\<close>

fun as_records :: "json list \<Rightarrow> error + broker list" where
  "as_records [] = Inr []"
| "as_records (JObject d # rest) =
     (case as_records rest of Inl e \<Rightarrow> Inl e | Inr ds \<Rightarrow> Inr (d # ds))"
| "as_records (_ # rest) = Inl AttributeError"

definition print_table :: "broker list \<Rightarrow> outcome" where
  "print_table ordered =
     (case render_table ordered of
        Inl e \<Rightarrow> failed e
      | Inr text \<Rightarrow> \<lparr>out_stdout = text @ [LF], out_file = None, out_status = None\<rparr>)"

definition run ::
  "(string \<Rightarrow> read_result) \<Rightarrow> (string \<Rightarrow> decode_result) \<Rightarrow> args \<Rightarrow> outcome"
where
  "run read_text loads a =
     (case load_inventory read_text loads (arg_inventory a) of
        Inl e \<Rightarrow> failed e
      | Inr data \<Rightarrow>
     (case as_records data of
        Inl e \<Rightarrow> failed e
      | Inr brokers \<Rightarrow>
     (case sort_brokers
             (filter_inventory brokers (arg_priority a) (arg_requires_phone a)
                (arg_requires_id a) (arg_requires_payment a) (arg_category a)) of
        Inl e \<Rightarrow> failed e
      | Inr ordered \<Rightarrow>
          (if arg_command a = List \<or> arg_command a = Filter then print_table ordered
           else (case arg_command a of
                   Export Csv output \<Rightarrow> export_csv ordered output
                 | Export Json output \<Rightarrow> export_json ordered output
                 | _ \<Rightarrow> failed (SystemExit ''Unknown command''))))))"

definition main ::
  "(string \<Rightarrow> read_result) \<Rightarrow> (string \<Rightarrow> decode_result) \<Rightarrow> cli \<Rightarrow> outcome"
where
  "main read_text loads c =
     (case parse_args c of
        Inl e \<Rightarrow> failed e
      | Inr a \<Rightarrow> run read_text loads a)"

subsection \<open>Notions used in the statements\<close>

text \<open>A record with a key that is not one of the seven CSV field names.\<close>

definition has_extra_key :: "broker \<Rightarrow> bool" where
  "has_extra_key r = list_ex (\<lambda>k. k \<notin> set fieldnames) (map fst r)"

text \<open>
  The contract of the filter in the specification's words: a supplied string filter
  matches a record whose field is exactly that string; a supplied boolean filter matches
  a record whose field, taken as false when missing, is that boolean; an absent filter
  matches every record.
\<close>

definition matches_str :: "string option \<Rightarrow> broker \<Rightarrow> string \<Rightarrow> bool" where
  "matches_str f b k = (case f of None \<Rightarrow> True | Some s \<Rightarrow> map_of b k = Some (JStr s))"

definition matches_bool :: "bool option \<Rightarrow> broker \<Rightarrow> string \<Rightarrow> bool" where
  "matches_bool f b k =
     (case f of None \<Rightarrow> True | Some v \<Rightarrow> dict_get_default b k (JBool False) = JBool v)"

definition satisfies ::
  "broker \<Rightarrow> string option \<Rightarrow> bool option \<Rightarrow> bool option \<Rightarrow> bool option \<Rightarrow> string option \<Rightarrow> bool"
where
  "satisfies b p rp ri ry c =
     (matches_str p b ''priority'' \<and> matches_bool rp b ''requires_phone''
      \<and> matches_bool ri b ''requires_id'' \<and> matches_bool ry b ''requires_payment''
      \<and> matches_str c b ''category'')"

text \<open>A string filter that constrains: the empty string counts as no filter.\<close>

definition nonempty :: "string option \<Rightarrow> string option" where
  "nonempty f = (if f = Some '''' then None else f)"

text \<open>The record has the field whenever the filter asks for false.\<close>

definition flag_known :: "bool option \<Rightarrow> broker \<Rightarrow> string \<Rightarrow> bool" where
  "flag_known f b k = (f = Some False \<longrightarrow> map_of b k \<noteq> None)"

text \<open>
  The ordering of the specification: the key (priority rank, name), where the rank of
  \<^verbatim>\<open>crucial\<close>, \<^verbatim>\<open>high\<close>, \<^verbatim>\<open>normal\<close> is 0, 1, 2 and that of any other or missing
  priority is 99, and a missing name is the empty string. The pairs are ordered
  lexicographically, the names by code points (so capitals come before small letters).
  \<open>name_is_text\<close> says that the name, when the record has one, is a string, as the
  data model declares it.
\<close>

definition name_is_text :: "broker \<Rightarrow> bool" where
  "name_is_text b =
     (case map_of b ''name'' of None \<Rightarrow> True | Some (JStr s) \<Rightarrow> True | Some _ \<Rightarrow> False)"

definition name_of :: "broker \<Rightarrow> string" where
  "name_of b = (case map_of b ''name'' of Some (JStr s) \<Rightarrow> s | _ \<Rightarrow> '''')"

definition rank_of :: "broker \<Rightarrow> int" where
  "rank_of b =
     (if map_of b ''priority'' = Some (JStr ''crucial'') then 0
      else if map_of b ''priority'' = Some (JStr ''high'') then 1
      else if map_of b ''priority'' = Some (JStr ''normal'') then 2
      else 99)"

definition ordering_key :: "broker \<Rightarrow> int \<times> string" where
  "ordering_key b = (rank_of b, name_of b)"

text \<open>The inventory of the specification's example, and its expected order.\<close>

definition zeta_acme_beta :: "broker list" where
  "zeta_acme_beta =
     [[(''name'', JStr ''Zeta''), (''priority'', JStr ''normal'')],
      [(''name'', JStr ''Acme''), (''priority'', JStr ''crucial'')],
      [(''name'', JStr ''Beta''), (''priority'', JStr ''high'')]]"

definition acme_beta_zeta :: "broker list" where
  "acme_beta_zeta =
     [[(''name'', JStr ''Acme''), (''priority'', JStr ''crucial'')],
      [(''name'', JStr ''Beta''), (''priority'', JStr ''high'')],
      [(''name'', JStr ''Zeta''), (''priority'', JStr ''normal'')]]"

text \<open>
  The two token sets of the specification, and what it means for a token to be one of
  them whatever the case of its letters: the token has the length of the listed word
  and each of its characters is the word's character or, for a small ASCII letter, the
  capital of it.
\<close>

definition true_tokens :: "string list" where
  "true_tokens = [''true'', ''1'', ''yes'', ''y'']"

definition false_tokens :: "string list" where
  "false_tokens = [''false'', ''0'', ''no'', ''n'']"

definition same_letter :: "char \<Rightarrow> char \<Rightarrow> bool" where
  "same_letter c d =
     (c = d \<or> (97 \<le> (of_char d :: nat) \<and> (of_char d :: nat) \<le> 122
               \<and> (of_char c :: nat) + 32 = of_char d))"

definition ci_equal :: "string \<Rightarrow> string \<Rightarrow> bool" where
  "ci_equal s tok = list_all2 same_letter s tok"

definition ci_member :: "string \<Rightarrow> string list \<Rightarrow> bool" where
  "ci_member s toks = list_ex (ci_equal s) toks"

text \<open>An ASCII digit or small letter.\<close>

definition plain :: "char \<Rightarrow> bool" where
  "plain d = (let n = (of_char d :: nat) in (48 \<le> n \<and> n \<le> 57) \<or> (97 \<le> n \<and> n \<le> 122))"

text \<open>
  The CSV document of the specification: the header line with the seven field names in
  their fixed order, then one line per record, whose cell for a field is empty when the
  record has no such field.
\<close>

definition header_text :: string where
  "header_text =
     ''name,priority,category,requires_phone,requires_id,requires_payment,opt_out_url''
     @ [CR, LF]"

definition csv_cells :: "broker \<Rightarrow> string list" where
  "csv_cells r =
     map (\<lambda>key. case map_of r key of None \<Rightarrow> [] | Some v \<Rightarrow> csv_quote (csv_field v))
       fieldnames"

definition csv_row :: "broker \<Rightarrow> string" where
  "csv_row r = join '','' (csv_cells r) @ [CR, LF]"

subsection \<open>Reading the exported JSON back\<close>

text \<open>
  A reader for the JSON documents that \<open>export_json\<close> writes, used to state what
  parsing the export yields. It follows the JSON grammar on arrays of objects whose
  values are scalars: white space is space, TAB, LF and CR; a string ends at the
  closing quote, with the escapes for quote, backslash, slash, BS, FF, LF, CR and TAB
  and the four-digit hexadecimal escape, and with no control character inside; a number
  is an optional minus sign and decimal digits without a leading zero; the literals are
  \<^verbatim>\<open>true\<close>, \<^verbatim>\<open>false\<close> and \<^verbatim>\<open>null\<close>. Any other text (a fraction or exponent, a
  code point from 256 on, a nested value, a document that is not an array of objects)
  is outside the model and is not read: the result is \<open>None\<close>.

  The reader is a scanner, a state machine that consumes one character at a time and
  collects tokens, followed by a second state machine over the tokens.
\<close>

datatype token = TLBrack | TRBrack | TLBrace | TRBrace | TComma | TColon | TScalar jval

datatype lstate =
    Idle
  | InStr string
  | InEsc string
  | InHex string "nat list"
  | InNum string
  | InWord string
  | Bad

definition is_digit :: "char \<Rightarrow> bool" where
  "is_digit c = (48 \<le> (of_char c :: nat) \<and> (of_char c :: nat) \<le> 57)"

definition is_letter :: "char \<Rightarrow> bool" where
  "is_letter c = (97 \<le> (of_char c :: nat) \<and> (of_char c :: nat) \<le> 122)"

definition digit_val :: "char \<Rightarrow> nat" where
  "digit_val c = (of_char c :: nat) - 48"

definition hex_val :: "char \<Rightarrow> nat option" where
  "hex_val c =
     (let n = (of_char c :: nat) in
      if 48 \<le> n \<and> n \<le> 57 then Some (n - 48)
      else if 97 \<le> n \<and> n \<le> 102 then Some (n - 87)
      else if 65 \<le> n \<and> n \<le> 70 then Some (n - 55)
      else None)"

definition read_nat :: "string \<Rightarrow> nat option" where
  "read_nat ds =
     (if ds \<noteq> [] \<and> list_all is_digit ds \<and> (length ds = 1 \<or> hd ds \<noteq> CHR ''0'')
      then Some (foldl (\<lambda>a d. 10 * a + digit_val d) 0 ds)
      else None)"

definition read_int :: "string \<Rightarrow> int option" where
  "read_int cs =
     (case cs of
        [] \<Rightarrow> None
      | c # ds \<Rightarrow>
          (if c = CHR ''-'' then map_option (\<lambda>n. - int n) (read_nat ds)
           else map_option int (read_nat cs)))"

text \<open>The token that a finished number or literal stands for.\<close>

definition close_atom :: "lstate \<Rightarrow> token list option" where
  "close_atom st =
     (case st of
        Idle \<Rightarrow> Some []
      | InNum cs \<Rightarrow> map_option (\<lambda>i. [TScalar (JInt i)]) (read_int cs)
      | InWord cs \<Rightarrow>
          (if cs = ''true'' then Some [TScalar (JBool True)]
           else if cs = ''false'' then Some [TScalar (JBool False)]
           else if cs = ''null'' then Some [TScalar JNull]
           else None)
      | _ \<Rightarrow> None)"

definition idle_step :: "token list \<Rightarrow> char \<Rightarrow> token list \<times> lstate" where
  "idle_step ts c =
     (if c = CHR '' '' \<or> c = LF \<or> c = CR \<or> c = CHR 0x09 then (ts, Idle)
      else if c = CHR ''['' then (ts @ [TLBrack], Idle)
      else if c = CHR '']'' then (ts @ [TRBrack], Idle)
      else if c = CHR ''{'' then (ts @ [TLBrace], Idle)
      else if c = CHR ''}'' then (ts @ [TRBrace], Idle)
      else if c = CHR '','' then (ts @ [TComma], Idle)
      else if c = CHR '':'' then (ts @ [TColon], Idle)
      else if c = DQ then (ts, InStr [])
      else if c = CHR ''-'' \<or> is_digit c then (ts, InNum [c])
      else if is_letter c then (ts, InWord [c])
      else (ts, Bad))"

definition unescape :: "char \<Rightarrow> char option" where
  "unescape c =
     (if c = DQ \<or> c = BSL \<or> c = CHR ''/'' then Some c
      else if c = CHR ''b'' then Some (CHR 0x08)
      else if c = CHR ''f'' then Some (CHR 0x0C)
      else if c = CHR ''n'' then Some LF
      else if c = CHR ''r'' then Some CR
      else if c = CHR ''t'' then Some (CHR 0x09)
      else None)"

definition lex_step :: "token list \<times> lstate \<Rightarrow> char \<Rightarrow> token list \<times> lstate" where
  "lex_step s c =
     (case s of (ts, st) \<Rightarrow>
        (case st of
           Bad \<Rightarrow> (ts, Bad)
         | Idle \<Rightarrow> idle_step ts c
         | InStr acc \<Rightarrow>
             (if c = DQ then (ts @ [TScalar (JStr acc)], Idle)
              else if c = BSL then (ts, InEsc acc)
              else if (of_char c :: nat) < 32 then (ts, Bad)
              else (ts, InStr (acc @ [c])))
         | InEsc acc \<Rightarrow>
             (if c = CHR ''u'' then (ts, InHex acc [])
              else (case unescape c of
                      Some d \<Rightarrow> (ts, InStr (acc @ [d]))
                    | None \<Rightarrow> (ts, Bad)))
         | InHex acc ds \<Rightarrow>
             (case hex_val c of
                None \<Rightarrow> (ts, Bad)
              | Some d \<Rightarrow>
                  (if length ds < 3 then (ts, InHex acc (ds @ [d]))
                   else (let n = foldl (\<lambda>a h. 16 * a + h) 0 (ds @ [d])
                         in if n < 256 then (ts, InStr (acc @ [char_of n])) else (ts, Bad))))
         | InNum cs \<Rightarrow>
             (if is_digit c then (ts, InNum (cs @ [c]))
              else (case close_atom st of
                      None \<Rightarrow> (ts, Bad)
                    | Some t \<Rightarrow> idle_step (ts @ t) c))
         | InWord cs \<Rightarrow>
             (if is_letter c then (ts, InWord (cs @ [c]))
              else (case close_atom st of
                      None \<Rightarrow> (ts, Bad)
                    | Some t \<Rightarrow> idle_step (ts @ t) c))))"

definition scan :: "string \<Rightarrow> token list option" where
  "scan text =
     (case foldl lex_step ([], Idle) text of
        (ts, st) \<Rightarrow> map_option (\<lambda>t. ts @ t) (close_atom st))"

text \<open>
  The grammar of an array of objects, over the tokens: the mode says what may come next,
  with the finished records and the items of the record being read.
\<close>

datatype pmode =
    Start | ArrOpen | NeedObj | ObjOpen | NeedKey | HaveKey string | NeedVal string
  | AfterVal | AfterObj | Done | Fail

definition parse_step ::
  "pmode \<times> broker list \<times> broker \<Rightarrow> token \<Rightarrow> pmode \<times> broker list \<times> broker"
where
  "parse_step s t =
     (case s of (mode, recs, cur) \<Rightarrow>
        (case (mode, t) of
           (Start, TLBrack) \<Rightarrow> (ArrOpen, recs, cur)
         | (ArrOpen, TRBrack) \<Rightarrow> (Done, recs, cur)
         | (ArrOpen, TLBrace) \<Rightarrow> (ObjOpen, recs, [])
         | (NeedObj, TLBrace) \<Rightarrow> (ObjOpen, recs, [])
         | (ObjOpen, TRBrace) \<Rightarrow> (AfterObj, recs @ [cur], [])
         | (ObjOpen, TScalar (JStr k)) \<Rightarrow> (HaveKey k, recs, cur)
         | (NeedKey, TScalar (JStr k)) \<Rightarrow> (HaveKey k, recs, cur)
         | (HaveKey k, TColon) \<Rightarrow> (NeedVal k, recs, cur)
         | (NeedVal k, TScalar v) \<Rightarrow> (AfterVal, recs, cur @ [(k, v)])
         | (AfterVal, TComma) \<Rightarrow> (NeedKey, recs, cur)
         | (AfterVal, TRBrace) \<Rightarrow> (AfterObj, recs @ [cur], [])
         | (AfterObj, TComma) \<Rightarrow> (NeedObj, recs, cur)
         | (AfterObj, TRBrack) \<Rightarrow> (Done, recs, cur)
         | _ \<Rightarrow> (Fail, recs, cur)))"

definition parse_tokens :: "token list \<Rightarrow> broker list option" where
  "parse_tokens ts =
     (case foldl parse_step (Start, [], []) ts of
        (Done, recs, cur) \<Rightarrow> Some recs
      | _ \<Rightarrow> None)"

definition read_json :: "string \<Rightarrow> broker list option" where
  "read_json text = (case scan text of None \<Rightarrow> None | Some ts \<Rightarrow> parse_tokens ts)"

text \<open>The text that a run wrote: the content of the output file, or standard output.\<close>

definition written_text :: "outcome \<Rightarrow> string" where
  "written_text out = (case out_file out of Some (path, text) \<Rightarrow> text | None \<Rightarrow> out_stdout out)"

text \<open>
  The tokens of the document that the encoder writes for a list of records: the items
  of a record in the order of their keys, items and records separated by commas.
\<close>

fun sep_tokens :: "token list list \<Rightarrow> token list" where
  "sep_tokens [] = []"
| "sep_tokens [x] = x"
| "sep_tokens (x # y # ys) = x @ TComma # sep_tokens (y # ys)"

definition item_tokens :: "string \<times> jval \<Rightarrow> token list" where
  "item_tokens kv = [TScalar (JStr (fst kv)), TColon, TScalar (snd kv)]"

definition obj_tokens :: "broker \<Rightarrow> token list" where
  "obj_tokens d = TLBrace # sep_tokens (map item_tokens (sort_key fst d)) @ [TRBrace]"

definition doc_tokens :: "broker list \<Rightarrow> token list" where
  "doc_tokens ds = TLBrack # sep_tokens (map obj_tokens ds) @ [TRBrack]"

text \<open>An inventory file with three records, decoded, for the round trip.\<close>

definition sample_inventory :: "json list" where
  "sample_inventory =
     [JObject [(''name'', JStr ''Zeta''), (''priority'', JStr ''normal''),
               (''requires_phone'', JBool True)],
      JObject [(''priority'', JStr ''crucial''), (''name'', JStr ''Acme''),
               (''requires_phone'', JBool True), (''fee'', JInt 25), (''notes'', JNull)],
      JObject [(''name'', JStr ''Beta''), (''requires_phone'', JBool False)]]"

definition sample_args :: args where
  "sample_args =
     \<lparr>arg_inventory = ''data/brokers.json'', arg_command = Export Json None,
      arg_priority = None, arg_requires_phone = Some True, arg_requires_id = None,
      arg_requires_payment = None, arg_category = None\<rparr>"

text \<open>
  Names that Python can order. The value under \<^verbatim>\<open>name\<close> is a string (also when the
  name is missing: the empty string), a number (an integer or a boolean) or
  \<^verbatim>\<open>null\<close>; \<^verbatim>\<open><\<close> is defined between two strings and between two numbers, two
  \<^verbatim>\<open>null\<close>s are equal, and every other pairing raises TypeError. A sequence has
  comparable names when any two of its records of equal priority rank have names of one
  kind; records of different rank are ordered by the rank alone.
\<close>

definition name_value :: "broker \<Rightarrow> jval" where
  "name_value b = dict_get_default b ''name'' (JStr '''')"

datatype name_kind = Text | Number | Null

definition kind_of :: "jval \<Rightarrow> name_kind" where
  "kind_of v = (case v of JStr s \<Rightarrow> Text | JInt i \<Rightarrow> Number | JBool b \<Rightarrow> Number | JNull \<Rightarrow> Null)"

definition comparable_names :: "broker list \<Rightarrow> bool" where
  "comparable_names bs =
     (\<forall>b \<in> set bs. \<forall>b' \<in> set bs.
        rank_of b = rank_of b' \<longrightarrow> kind_of (name_value b) = kind_of (name_value b'))"

text \<open>
  The key (priority rank, name) with the name of any kind: strings by code points,
  numbers by value (\<^verbatim>\<open>True\<close> is 1 and \<^verbatim>\<open>False\<close> is 0). Two records have the same
  \<open>full_key\<close> exactly when Python finds their key tuples equal.
\<close>

definition name_order :: "jval \<Rightarrow> nat \<times> string \<times> int" where
  "name_order v =
     (case v of
        JStr s \<Rightarrow> (0, s, 0)
      | JInt i \<Rightarrow> (1, [], i)
      | JBool b \<Rightarrow> (1, [], if b then 1 else 0)
      | JNull \<Rightarrow> (2, [], 0))"

definition full_key :: "broker \<Rightarrow> int \<times> nat \<times> string \<times> int" where
  "full_key b = (rank_of b, name_order (name_value b))"

text \<open>
  An inventory with names of the three kinds, each kind within one rank, and with
  records of equal key: the two \<^verbatim>\<open>Beta\<close> records of priority \<^verbatim>\<open>high\<close> differ in their
  category only, as do the two records of priority \<^verbatim>\<open>crucial\<close> whose name is
  \<^verbatim>\<open>null\<close>; the last record has neither a name nor a recognised priority.
\<close>

definition mixed_inventory :: "broker list" where
  "mixed_inventory =
     [[(''name'', JInt 7), (''priority'', JStr ''normal'')],
      [(''priority'', JStr ''urgent''), (''category'', JStr ''first'')],
      [(''name'', JStr ''Beta''), (''priority'', JStr ''high''), (''category'', JStr ''one'')],
      [(''name'', JNull), (''priority'', JStr ''crucial''), (''category'', JStr ''one'')],
      [(''name'', JInt 3), (''priority'', JStr ''normal'')],
      [(''name'', JStr ''acme''), (''priority'', JStr ''high'')],
      [(''name'', JStr ''Beta''), (''priority'', JStr ''high''), (''category'', JStr ''two'')],
      [(''name'', JNull), (''priority'', JStr ''crucial''), (''category'', JStr ''two'')],
      [(''category'', JStr ''second'')]]"

definition mixed_inventory_sorted :: "broker list" where
  "mixed_inventory_sorted =
     [[(''name'', JNull), (''priority'', JStr ''crucial''), (''category'', JStr ''one'')],
      [(''name'', JNull), (''priority'', JStr ''crucial''), (''category'', JStr ''two'')],
      [(''name'', JStr ''Beta''), (''priority'', JStr ''high''), (''category'', JStr ''one'')],
      [(''name'', JStr ''Beta''), (''priority'', JStr ''high''), (''category'', JStr ''two'')],
      [(''name'', JStr ''acme''), (''priority'', JStr ''high'')],
      [(''name'', JInt 3), (''priority'', JStr ''normal'')],
      [(''name'', JInt 7), (''priority'', JStr ''normal'')],
      [(''priority'', JStr ''urgent''), (''category'', JStr ''first'')],
      [(''category'', JStr ''second'')]]"

text \<open>
  The failure that the specification describes for the loader: the process ends through
  SystemExit with a message of the program's own.
\<close>

definition exits_with_message :: "error + json list \<Rightarrow> bool" where
  "exits_with_message r = (case r of Inl (SystemExit msg) \<Rightarrow> msg \<noteq> [] | _ \<Rightarrow> False)"

section \<open>Properties\<close>

subsection \<open>The filter loop is a selection\<close>

lemma filter_loop_eq:
  "filter_loop bs p rp ri ry c acc = acc @ filter (\<lambda>b. passes b p rp ri ry c) bs"
  by (induction bs arbitrary: acc) simp_all

lemma filter_inventory_eq:
  "filter_inventory bs p rp ri ry c = filter (\<lambda>b. passes b p rp ri ry c) bs"
  by (simp add: filter_inventory_def filter_loop_eq)

lemma passes_empty_category: "passes b p rp ri ry (Some '''') = passes b p rp ri ry None"
  by (simp add: passes_def truthy_def)

lemma passes_empty_priority: "passes b (Some '''') rp ri ry c = passes b None rp ri ry c"
  by (simp add: passes_def truthy_def)

lemma passes_no_filter: "passes b None None None None None"
  by (simp add: passes_def truthy_def)

text \<open>
  C1. The claim: a boolean filter is compared with the field's value where a missing
  field counts as false, so a record without the field is kept by a filter value of
  false. The code compares with \<^verbatim>\<open>broker.get(key)\<close>, which is \<^verbatim>\<open>None\<close> for a missing
  field, and \<^verbatim>\<open>None is not False\<close> holds: the record \<^verbatim>\<open>{"name": "B"}\<close> is dropped by
  \<^verbatim>\<open>requires_phone=False\<close>, although \<open>render_table\<close> shows its flag as \<^verbatim>\<open>false\<close>.
\<close>

theorem filter_inventory_missing_flag_dropped:
  "filter_inventory [[(''name'', JStr ''B'')]] None (Some False) None None None = []
   \<and> table_row [(''name'', JStr ''B'')] ! 2 = JStr ''false''"
  by code_simp

text \<open>
  C10. An empty string given for \<open>category\<close> or for \<open>priority\<close> filters nothing: the
  result is the one of the absent filter, whatever the other filters are, and with no
  other filter every record is kept.
\<close>

theorem filter_inventory_empty_string_no_constraint:
  "filter_inventory bs p rp ri ry (Some '''') = filter_inventory bs p rp ri ry None
   \<and> filter_inventory bs (Some '''') rp ri ry c = filter_inventory bs None rp ri ry c
   \<and> filter_inventory bs None None None None (Some '''') = bs
   \<and> filter_inventory bs (Some '''') None None None None = bs"
  by (simp add: filter_inventory_eq passes_empty_category passes_empty_priority passes_no_filter)

theorem filter_inventory_empty_string_witness:
  "filter_inventory [[(''category'', JStr ''people_search'')], [(''name'', JStr ''B'')]]
     None None None None (Some '''')
   = [[(''category'', JStr ''people_search'')], [(''name'', JStr ''B'')]]"
  using filter_inventory_empty_string_no_constraint
    [of "[[(''category'', JStr ''people_search'')], [(''name'', JStr ''B'')]]"
        None None None None None]
  by blast

subsection \<open>The commands\<close>

lemma parse_args_command:
  "parse_args (c\<lparr>cli_command := k\<rparr>) = map_sum id (\<lambda>a. a\<lparr>arg_command := k\<rparr>) (parse_args c)"
  by (simp add: parse_args_def split: sum.splits)

lemma run_list_filter:
  "run read_text loads (a\<lparr>arg_command := List\<rparr>) = run read_text loads (a\<lparr>arg_command := Filter\<rparr>)"
  by (simp add: run_def split: sum.splits)

lemma run_table:
  assumes "load_inventory read_text loads (arg_inventory a) = Inr data"
    and "as_records data = Inr bs"
    and "sort_brokers (filter_inventory bs (arg_priority a) (arg_requires_phone a)
           (arg_requires_id a) (arg_requires_payment a) (arg_category a)) = Inr ordered"
    and "render_table ordered = Inr tbl"
  shows "run read_text loads (a\<lparr>arg_command := Filter\<rparr>)
         = \<lparr>out_stdout = tbl @ [LF], out_file = None, out_status = None\<rparr>"
  using assms by (simp add: run_def print_table_def)

text \<open>
  C8. On the same inventory, decoder and options, the commands \<^verbatim>\<open>list\<close> and
  \<^verbatim>\<open>filter\<close> leave the same result: the same text on standard output, no file, the same
  error if there is one. When the inventory loads, sorts and renders, that result is the
  table of the filtered and ordered records on standard output, followed by a newline.
\<close>

theorem list_and_filter_identical:
  "main read_text loads (c\<lparr>cli_command := List\<rparr>)
   = main read_text loads (c\<lparr>cli_command := Filter\<rparr>)
   \<and> (parse_args c = Inr a
        \<and> load_inventory read_text loads (arg_inventory a) = Inr data
        \<and> as_records data = Inr bs
        \<and> sort_brokers (filter_inventory bs (arg_priority a) (arg_requires_phone a)
              (arg_requires_id a) (arg_requires_payment a) (arg_category a)) = Inr ordered
        \<and> render_table ordered = Inr tbl
       \<longrightarrow> main read_text loads (c\<lparr>cli_command := Filter\<rparr>)
           = \<lparr>out_stdout = tbl @ [LF], out_file = None, out_status = None\<rparr>)"
proof (intro conjI impI)
  show "main read_text loads (c\<lparr>cli_command := List\<rparr>)
        = main read_text loads (c\<lparr>cli_command := Filter\<rparr>)"
    by (cases "parse_args c") (simp_all add: main_def parse_args_command run_list_filter)
next
  assume h: "parse_args c = Inr a
        \<and> load_inventory read_text loads (arg_inventory a) = Inr data
        \<and> as_records data = Inr bs
        \<and> sort_brokers (filter_inventory bs (arg_priority a) (arg_requires_phone a)
              (arg_requires_id a) (arg_requires_payment a) (arg_category a)) = Inr ordered
        \<and> render_table ordered = Inr tbl"
  then have "main read_text loads (c\<lparr>cli_command := Filter\<rparr>)
             = run read_text loads (a\<lparr>arg_command := Filter\<rparr>)"
    by (simp add: main_def parse_args_command)
  with h show "main read_text loads (c\<lparr>cli_command := Filter\<rparr>)
           = \<lparr>out_stdout = tbl @ [LF], out_file = None, out_status = None\<rparr>"
    using run_table[of read_text loads a data bs ordered tbl] by simp
qed

theorem list_and_filter_identical_witness:
  "main (\<lambda>p. Content ''inventory'') (\<lambda>t. Decoded (JArray (map JObject zeta_acme_beta)))
     \<lparr>cli_inventory = ''data/brokers.json'', cli_command = List, cli_priority = None,
      cli_requires_phone = None, cli_requires_id = None, cli_requires_payment = None,
      cli_category = None\<rparr>
   = \<lparr>out_stdout =
        ''Name | Priority | Requires Phone | Requires ID | Requires Payment | Category'' @ [LF]
        @ ''---- | -------- | -------------- | ----------- | ---------------- | --------'' @ [LF]
        @ ''Acme | crucial  | false          | false       | false            |         '' @ [LF]
        @ ''Beta | high     | false          | false       | false            |         '' @ [LF]
        @ ''Zeta | normal   | false          | false       | false            |         '' @ [LF],
      out_file = None, out_status = None\<rparr>"
proof -
  let ?c = "\<lparr>cli_inventory = ''data/brokers.json'', cli_command = List, cli_priority = None,
      cli_requires_phone = None, cli_requires_id = None, cli_requires_payment = None,
      cli_category = None\<rparr>"
  let ?a = "\<lparr>arg_inventory = ''data/brokers.json'', arg_command = List, arg_priority = None,
      arg_requires_phone = None, arg_requires_id = None, arg_requires_payment = None,
      arg_category = None\<rparr>"
  let ?rt = "\<lambda>p :: string. Content ''inventory''"
  let ?ld = "\<lambda>t :: string. Decoded (JArray (map JObject zeta_acme_beta))"
  have 1: "parse_args ?c = Inr ?a"
    by (simp add: parse_args_def convert_bool_def)
  have 2: "load_inventory ?rt ?ld (arg_inventory ?a) = Inr (map JObject zeta_acme_beta)"
    by (simp add: load_inventory_def)
  have 3: "as_records (map JObject zeta_acme_beta) = Inr zeta_acme_beta"
    by (simp add: zeta_acme_beta_def)
  have 4: "sort_brokers (filter_inventory zeta_acme_beta (arg_priority ?a)
             (arg_requires_phone ?a) (arg_requires_id ?a) (arg_requires_payment ?a)
             (arg_category ?a)) = Inr acme_beta_zeta"
    by code_simp
  have 5: "render_table acme_beta_zeta
           = Inr (''Name | Priority | Requires Phone | Requires ID | Requires Payment | Category'' @ [LF]
        @ ''---- | -------- | -------------- | ----------- | ---------------- | --------'' @ [LF]
        @ ''Acme | crucial  | false          | false       | false            |         '' @ [LF]
        @ ''Beta | high     | false          | false       | false            |         '' @ [LF]
        @ ''Zeta | normal   | false          | false       | false            |         '')"
    by code_simp
  have c: "?c\<lparr>cli_command := List\<rparr> = ?c" by simp
  from list_and_filter_identical[of ?rt ?ld ?c ?a "map JObject zeta_acme_beta"
      zeta_acme_beta acme_beta_zeta] 1 2 3 4 5 c
  show ?thesis by simp
qed

subsection \<open>The check of the dictionary writer\<close>

lemma dict_to_list_extra: "has_extra_key r \<Longrightarrow> dict_to_list r = Inl ValueError"
  by (simp add: dict_to_list_def has_extra_key_def)

lemma dict_to_list_ok:
  "\<not> has_extra_key r \<Longrightarrow>
   dict_to_list r = Inr (map (\<lambda>key. dict_get_default r key (JStr '''')) fieldnames)"
  by (simp add: dict_to_list_def has_extra_key_def)

lemma out_status_emit: "out_status (emit output text st) = st"
  by (simp add: emit_def split: option.splits)

subsection \<open>The filter against its contract\<close>

lemma str_test:
  "(truthy f \<and> dict_get b k \<noteq> JStr (the f)) = (\<not> matches_str (nonempty f) b k)"
  by (cases f)
     (auto simp add: truthy_def matches_str_def nonempty_def dict_get_def split: option.splits)

lemma bool_test:
  "flag_known f b k \<Longrightarrow> (f \<noteq> None \<and> dict_get b k \<noteq> JBool (the f)) = (\<not> matches_bool f b k)"
  by (cases f)
     (auto simp add: flag_known_def matches_bool_def dict_get_def dict_get_default_def
        split: option.splits)

lemma passes_satisfies:
  assumes "flag_known rp b ''requires_phone''" "flag_known ri b ''requires_id''"
    "flag_known ry b ''requires_payment''"
  shows "passes b p rp ri ry c = satisfies b (nonempty p) rp ri ry (nonempty c)"
  unfolding passes_def satisfies_def
  by (simp only: str_test bool_test[OF assms(1)] bool_test[OF assms(2)] bool_test[OF assms(3)])
     auto

text \<open>
  C2, as the code has it. On a sequence whose records carry every boolean field for
  which the value false is asked, the output is the input with exactly the records kept
  that satisfy every supplied boolean filter and every supplied non-empty string filter,
  each once and in the input's order; absent filters, and empty strings, constrain
  nothing.
\<close>

theorem filter_inventory_selects:
  assumes "\<forall>b \<in> set bs. flag_known rp b ''requires_phone'' \<and> flag_known ri b ''requires_id''
             \<and> flag_known ry b ''requires_payment''"
  shows "filter_inventory bs p rp ri ry c
           = filter (\<lambda>b. satisfies b (nonempty p) rp ri ry (nonempty c)) bs
         \<and> subseq (filter_inventory bs p rp ri ry c) bs
         \<and> filter_inventory bs None None None None None = bs"
proof -
  have "filter (\<lambda>b. passes b p rp ri ry c) bs
        = filter (\<lambda>b. satisfies b (nonempty p) rp ri ry (nonempty c)) bs"
    using assms by (intro filter_cong refl passes_satisfies) auto
  then show ?thesis
    by (simp add: filter_inventory_eq passes_no_filter)
qed

theorem filter_inventory_selects_witness:
  "filter_inventory
     [[(''name'', JStr ''A''), (''requires_phone'', JBool True)],
      [(''name'', JStr ''B''), (''requires_phone'', JBool False)],
      [(''name'', JStr ''C''), (''requires_phone'', JBool False), (''category'', JStr ''x'')]]
     None (Some False) None None (Some ''x'')
   = [[(''name'', JStr ''C''), (''requires_phone'', JBool False), (''category'', JStr ''x'')]]"
proof -
  let ?bs = "[[(''name'', JStr ''A''), (''requires_phone'', JBool True)],
      [(''name'', JStr ''B''), (''requires_phone'', JBool False)],
      [(''name'', JStr ''C''), (''requires_phone'', JBool False), (''category'', JStr ''x'')]]"
  have h: "\<forall>b \<in> set ?bs. flag_known (Some False) b ''requires_phone''
             \<and> flag_known None b ''requires_id'' \<and> flag_known None b ''requires_payment''"
    by (simp add: flag_known_def)
  show ?thesis
    using filter_inventory_selects[OF h, of None "Some ''x''"]
    by (simp add: satisfies_def matches_str_def matches_bool_def nonempty_def
        dict_get_default_def)
qed

text \<open>
  C2 as stated fails: the category filter \<^verbatim>\<open>""\<close> is supplied, the record's category
  is \<^verbatim>\<open>"x"\<close> and does not match it, and the record is in the output.
\<close>

theorem filter_inventory_selects_counterexample:
  "filter_inventory [[(''category'', JStr ''x'')]] None None None None (Some '''')
     = [[(''category'', JStr ''x'')]]
   \<and> \<not> satisfies [(''category'', JStr ''x'')] None None None None (Some '''')"
  by (simp add: filter_inventory_def passes_def truthy_def satisfies_def matches_str_def
      matches_bool_def)

subsection \<open>Loading\<close>

lemma run_load_failure:
  "load_inventory read_text loads (arg_inventory a) = Inl e \<Longrightarrow> run read_text loads a = failed e"
  by (simp add: run_def)

text \<open>
  C5, as the code has it. For every path, file system and decoder, \<open>load_inventory\<close>
  returns the decoded top-level array, or raises. It raises SystemExit with a message
  in three cases: the file is missing, the text is not JSON (these two messages name
  the path), or the document is not an array. In the two other cases no handler applies
  and the exception leaves the function uncaught: the file cannot be read, or the
  decoder raises something other than JSONDecodeError. After any failure the run stops
  there: nothing is printed and nothing is written.
\<close>

theorem load_inventory_returns_or_exits:
  "((\<exists>body items. read_text path = Content body \<and> loads body = Decoded (JArray items)
        \<and> load_inventory read_text loads path = Inr items)
    \<or> (read_text path = NotFound
        \<and> load_inventory read_text loads path
            = Inl (SystemExit (''Inventory file not found: '' @ path)))
    \<or> (\<exists>body. read_text path = Content body \<and> loads body = Invalid
        \<and> load_inventory read_text loads path
            = Inl (SystemExit (''Inventory file is not valid JSON: '' @ path)))
    \<or> (\<exists>body data. read_text path = Content body \<and> loads body = Decoded data
        \<and> (\<forall>items. data \<noteq> JArray items)
        \<and> load_inventory read_text loads path
            = Inl (SystemExit ''Inventory file must contain a list of brokers.''))
    \<or> (read_text path = Unreadable \<and> load_inventory read_text loads path = Inl ReadError)
    \<or> (\<exists>body. read_text path = Content body \<and> loads body = DecodeFailure
        \<and> load_inventory read_text loads path = Inl DecoderError))
   \<and> (\<forall>e. load_inventory read_text loads (arg_inventory a) = Inl e
         \<longrightarrow> run read_text loads a = failed e)"
proof
  show "\<forall>e. load_inventory read_text loads (arg_inventory a) = Inl e
         \<longrightarrow> run read_text loads a = failed e"
    by (simp add: run_load_failure)
next
  show "(\<exists>body items. read_text path = Content body \<and> loads body = Decoded (JArray items)
        \<and> load_inventory read_text loads path = Inr items)
    \<or> (read_text path = NotFound
        \<and> load_inventory read_text loads path
            = Inl (SystemExit (''Inventory file not found: '' @ path)))
    \<or> (\<exists>body. read_text path = Content body \<and> loads body = Invalid
        \<and> load_inventory read_text loads path
            = Inl (SystemExit (''Inventory file is not valid JSON: '' @ path)))
    \<or> (\<exists>body data. read_text path = Content body \<and> loads body = Decoded data
        \<and> (\<forall>items. data \<noteq> JArray items)
        \<and> load_inventory read_text loads path
            = Inl (SystemExit ''Inventory file must contain a list of brokers.''))
    \<or> (read_text path = Unreadable \<and> load_inventory read_text loads path = Inl ReadError)
    \<or> (\<exists>body. read_text path = Content body \<and> loads body = DecodeFailure
        \<and> load_inventory read_text loads path = Inl DecoderError)"
  proof (cases "read_text path")
    case NotFound
    then show ?thesis by (simp add: load_inventory_def)
  next
    case Unreadable
    then show ?thesis by (simp add: load_inventory_def)
  next
    case (Content body)
    show ?thesis
    proof (cases "loads body")
      case Invalid
      with Content show ?thesis by (simp add: load_inventory_def)
    next
      case DecodeFailure
      with Content show ?thesis by (simp add: load_inventory_def)
    next
      case (Decoded data)
      with Content show ?thesis by (cases data) (simp_all add: load_inventory_def)
    qed
  qed
qed

theorem load_inventory_returns_or_exits_witness:
  "load_inventory (\<lambda>p. Content ''{}'') (\<lambda>t. Decoded (JObject [])) ''data/brokers.json''
     = Inl (SystemExit ''Inventory file must contain a list of brokers.'')
   \<and> run (\<lambda>p. Content ''{}'') (\<lambda>t. Decoded (JObject []))
       \<lparr>arg_inventory = ''data/brokers.json'', arg_command = Export Json None,
        arg_priority = None, arg_requires_phone = None, arg_requires_id = None,
        arg_requires_payment = None, arg_category = None\<rparr>
     = \<lparr>out_stdout = [], out_file = None,
        out_status = Some (SystemExit ''Inventory file must contain a list of brokers.'')\<rparr>"
  using load_inventory_returns_or_exits
    [of "\<lambda>p. Content ''{}''" "''data/brokers.json''" "\<lambda>t. Decoded (JObject [])"
        "\<lparr>arg_inventory = ''data/brokers.json'', arg_command = Export Json None,
          arg_priority = None, arg_requires_phone = None, arg_requires_id = None,
          arg_requires_payment = None, arg_category = None\<rparr>"]
  by (auto simp add: failed_def)

text \<open>
  C5 as stated fails: for a file that exists and cannot be read (no permission, a
  directory, bytes that are not UTF-8) the function does not end with a message of its
  own; the exception of the read passes through uncaught. The same holds for an
  exception of the decoder other than JSONDecodeError.
\<close>

theorem load_inventory_returns_or_exits_counterexample:
  "load_inventory (\<lambda>p. Unreadable) (\<lambda>t. Invalid) ''data/brokers.json'' = Inl ReadError
   \<and> \<not> exits_with_message (load_inventory (\<lambda>p. Unreadable) (\<lambda>t. Invalid) ''data/brokers.json'')
   \<and> load_inventory (\<lambda>p. Content ''[1]'') (\<lambda>t. DecodeFailure) ''data/brokers.json''
       = Inl DecoderError
   \<and> \<not> exits_with_message
         (load_inventory (\<lambda>p. Content ''[1]'') (\<lambda>t. DecodeFailure) ''data/brokers.json'')"
  by (simp add: load_inventory_def exits_with_message_def)

subsection \<open>Ordering\<close>

lemma fst_sort_key_of: "fst (sort_key_of b) = rank_of b"
  by (auto simp add: sort_key_of_def rank_of_def priority_rank_def dict_get_def
      split: option.splits)

lemma snd_sort_key_of: "name_is_text b \<Longrightarrow> snd (sort_key_of b) = JStr (name_of b)"
  by (auto simp add: sort_key_of_def name_is_text_def name_of_def dict_get_default_def
      split: option.splits jval.splits)

lemma sort_key_of_typed: "name_is_text b \<Longrightarrow> sort_key_of b = (rank_of b, JStr (name_of b))"
  using fst_sort_key_of[of b] snd_sort_key_of[of b] by (cases "sort_key_of b") simp

lemma key_lt_text:
  "key_lt (r, JStr s) (r', JStr t) = Inr ((r, s) < (r', t))"
  by (auto simp add: key_lt_def py_eq_def py_lt_def int_like_def less_prod_def)

lemma key_lt_typed:
  "name_is_text x \<Longrightarrow> name_is_text y \<Longrightarrow>
   key_lt (sort_key_of y) (sort_key_of x) = Inr (ordering_key y < ordering_key x)"
  by (simp add: sort_key_of_typed key_lt_text ordering_key_def)

lemma insort_lt_typed:
  "name_is_text x \<Longrightarrow> \<forall>y \<in> set ys. name_is_text y \<Longrightarrow>
   insort_lt x ys = Inr (insort_key ordering_key x ys)"
proof (induction ys)
  case Nil
  then show ?case by simp
next
  case (Cons y ys)
  then have "key_lt (sort_key_of y) (sort_key_of x) = Inr (ordering_key y < ordering_key x)"
    by (simp add: key_lt_typed)
  with Cons show ?case
    by (cases "ordering_key y < ordering_key x") (auto simp add: not_less)
qed

lemma sorted_by_key_typed:
  "\<forall>b \<in> set bs. name_is_text b \<Longrightarrow> sorted_by_key bs = Inr (sort_key ordering_key bs)"
proof (induction bs)
  case Nil
  then show ?case by simp
next
  case (Cons b bs)
  then have "sorted_by_key bs = Inr (sort_key ordering_key bs)" by simp
  moreover have "insort_lt b (sort_key ordering_key bs)
                 = Inr (insort_key ordering_key b (sort_key ordering_key bs))"
    using Cons.prems by (intro insort_lt_typed) simp_all
  ultimately show ?case by simp
qed

lemma sort_key_of_eq: "sort_key_of b = (rank_of b, name_value b)"
  using fst_sort_key_of[of b] by (cases "sort_key_of b") (simp add: sort_key_of_def name_value_def)

lemma key_lt_full:
  assumes "rank_of x = rank_of y \<longrightarrow> kind_of (name_value x) = kind_of (name_value y)"
  shows "key_lt (sort_key_of y) (sort_key_of x) = Inr (full_key y < full_key x)"
proof (cases "rank_of x = rank_of y")
  case False
  then show ?thesis
    by (auto simp add: sort_key_of_eq key_lt_def full_key_def less_prod_def)
next
  case True
  with assms have "kind_of (name_value x) = kind_of (name_value y)" by simp
  with True show ?thesis
    by (cases "name_value x"; cases "name_value y")
       (auto simp add: sort_key_of_eq key_lt_def full_key_def less_prod_def kind_of_def
          name_order_def py_eq_def py_lt_def int_like_def)
qed

lemma insort_lt_full:
  "\<forall>y \<in> set ys. rank_of x = rank_of y \<longrightarrow> kind_of (name_value x) = kind_of (name_value y)
   \<Longrightarrow> insort_lt x ys = Inr (insort_key full_key x ys)"
proof (induction ys)
  case Nil
  then show ?case by simp
next
  case (Cons y ys)
  then have "key_lt (sort_key_of y) (sort_key_of x) = Inr (full_key y < full_key x)"
    by (simp add: key_lt_full)
  with Cons show ?case
    by (cases "full_key y < full_key x") (auto simp add: not_less)
qed

lemma comparable_names_Cons:
  assumes "comparable_names (b # bs)"
  shows "comparable_names bs
   \<and> (\<forall>y \<in> set bs. rank_of b = rank_of y \<longrightarrow> kind_of (name_value b) = kind_of (name_value y))"
proof -
  have all: "\<And>x y. x \<in> set (b # bs) \<Longrightarrow> y \<in> set (b # bs) \<Longrightarrow> rank_of x = rank_of y
               \<Longrightarrow> kind_of (name_value x) = kind_of (name_value y)"
    using assms unfolding comparable_names_def by blast
  have "comparable_names bs"
    unfolding comparable_names_def using all by (meson list.set_intros(2))
  moreover have "\<forall>y \<in> set bs. rank_of b = rank_of y
                   \<longrightarrow> kind_of (name_value b) = kind_of (name_value y)"
    using all by (meson list.set_intros)
  ultimately show ?thesis by blast
qed

lemma sorted_by_key_full:
  "comparable_names bs \<Longrightarrow> sorted_by_key bs = Inr (sort_key full_key bs)"
proof (induction bs)
  case Nil
  then show ?case by simp
next
  case (Cons b bs)
  from comparable_names_Cons[OF Cons.prems]
  have rest: "comparable_names bs"
    and head: "\<forall>y \<in> set bs. rank_of b = rank_of y
                 \<longrightarrow> kind_of (name_value b) = kind_of (name_value y)"
    by simp_all
  from rest have "sorted_by_key bs = Inr (sort_key full_key bs)" by (rule Cons.IH)
  moreover have "insort_lt b (sort_key full_key bs)
                 = Inr (insort_key full_key b (sort_key full_key bs))"
    using head by (intro insort_lt_full) simp
  ultimately show ?case by simp
qed

lemma text_names_comparable: "\<forall>b \<in> set bs. name_is_text b \<Longrightarrow> comparable_names bs"
  by (auto simp add: comparable_names_def name_is_text_def name_value_def kind_of_def
      dict_get_default_def split: option.splits jval.splits)

lemma full_key_text:
  "name_is_text b \<Longrightarrow> full_key b = (rank_of b, 0, name_of b, 0)"
  by (auto simp add: full_key_def name_order_def name_value_def name_is_text_def name_of_def
      dict_get_default_def split: option.splits jval.splits)

lemma full_key_le_text:
  "name_is_text b \<Longrightarrow> name_is_text b' \<Longrightarrow>
   full_key b \<le> full_key b' \<longleftrightarrow> ordering_key b \<le> ordering_key b'"
  by (auto simp add: full_key_text ordering_key_def less_eq_prod_def)

lemma ranked_first:
  assumes "sorted (map full_key rs)" and "i < length rs" and "j < length rs"
    and "rank_of (rs ! i) < 99" and "rank_of (rs ! j) = 99"
  shows "i < j"
proof (rule ccontr)
  assume "\<not> i < j"
  then have "j \<le> i" by simp
  with assms(1,2) have "map full_key rs ! j \<le> map full_key rs ! i"
    by (intro sorted_nth_mono) simp_all
  with assms(2,3) have "full_key (rs ! j) \<le> full_key (rs ! i)" by simp
  then have "rank_of (rs ! j) \<le> rank_of (rs ! i)"
    by (auto simp add: full_key_def less_eq_prod_def)
  with assms(4,5) show False by simp
qed

text \<open>
  C3, as the code has it. On a sequence in which any two records of equal priority rank
  have names of one kind (both strings or missing, both numbers, or both \<^verbatim>\<open>null\<close>),
  \<open>sort_brokers\<close> returns a list that is a permutation of its input, ascending in the
  key (priority rank, name), with the records of each key in their input order
  (stable). The rank that the code computes is 0, 1, 2 for \<^verbatim>\<open>crucial\<close>, \<^verbatim>\<open>high\<close>,
  \<^verbatim>\<open>normal\<close> and 99 for any other or missing priority, and every record of rank 99
  comes after every record of a recognised priority. Between records whose names are
  strings or missing the order of the keys is the lexicographic order of the pairs
  (rank, name), names by code points and a missing name as the empty string; when all
  names are such, the result is sorted and stable in that key. The inventory
  Zeta/normal, Acme/crucial, Beta/high sorts to Acme, Beta, Zeta.
\<close>

theorem sort_brokers_stable_by_rank_and_name:
  assumes "comparable_names bs"
  shows "(\<exists>rs. sort_brokers bs = Inr rs
            \<and> mset rs = mset bs
            \<and> sorted (map full_key rs)
            \<and> (\<forall>k. filter (\<lambda>b. full_key b = k) rs = filter (\<lambda>b. full_key b = k) bs)
            \<and> (\<forall>i j. i < length rs \<and> j < length rs \<and> rank_of (rs ! i) < 99
                   \<and> rank_of (rs ! j) = 99 \<longrightarrow> i < j)
            \<and> ((\<forall>b \<in> set bs. name_is_text b) \<longrightarrow>
                  sorted (map ordering_key rs)
                  \<and> (\<forall>k. filter (\<lambda>b. ordering_key b = k) rs
                          = filter (\<lambda>b. ordering_key b = k) bs)))
         \<and> (\<forall>b \<in> set bs. sort_key_of b = (rank_of b, name_value b))
         \<and> (\<forall>b \<in> set bs. \<forall>b' \<in> set bs. name_is_text b \<and> name_is_text b' \<longrightarrow>
               (full_key b \<le> full_key b' \<longleftrightarrow> ordering_key b \<le> ordering_key b'))
         \<and> sort_brokers zeta_acme_beta = Inr acme_beta_zeta"
proof -
  let ?rs = "sort_key full_key bs"
  have 1: "sort_brokers bs = Inr ?rs"
    using assms by (simp add: sort_brokers_def sorted_by_key_full)
  have 2: "mset ?rs = mset bs" by simp
  have 3: "sorted (map full_key ?rs)" by (rule sorted_sort_key)
  have 4: "\<forall>k. filter (\<lambda>b. full_key b = k) ?rs = filter (\<lambda>b. full_key b = k) bs"
    by (simp add: sort_key_stable)
  have 5: "\<forall>i j. i < length ?rs \<and> j < length ?rs \<and> rank_of (?rs ! i) < 99
                   \<and> rank_of (?rs ! j) = 99 \<longrightarrow> i < j"
    using ranked_first[OF 3] by blast
  have 6: "(\<forall>b \<in> set bs. name_is_text b) \<longrightarrow>
             sorted (map ordering_key ?rs)
             \<and> (\<forall>k. filter (\<lambda>b. ordering_key b = k) ?rs = filter (\<lambda>b. ordering_key b = k) bs)"
  proof
    assume "\<forall>b \<in> set bs. name_is_text b"
    then have "sorted_by_key bs = Inr (sort_key ordering_key bs)"
      by (rule sorted_by_key_typed)
    with 1 have "?rs = sort_key ordering_key bs"
      by (simp add: sort_brokers_def)
    then show "sorted (map ordering_key ?rs)
             \<and> (\<forall>k. filter (\<lambda>b. ordering_key b = k) ?rs = filter (\<lambda>b. ordering_key b = k) bs)"
      by (simp add: sort_key_stable)
  qed
  have 7: "\<forall>b \<in> set bs. sort_key_of b = (rank_of b, name_value b)"
    by (simp add: sort_key_of_eq)
  have 8: "\<forall>b \<in> set bs. \<forall>b' \<in> set bs. name_is_text b \<and> name_is_text b' \<longrightarrow>
               (full_key b \<le> full_key b' \<longleftrightarrow> ordering_key b \<le> ordering_key b')"
    by (simp add: full_key_le_text)
  have 9: "sort_brokers zeta_acme_beta = Inr acme_beta_zeta"
    by code_simp
  from 1 2 3 4 5 6 have "\<exists>rs. sort_brokers bs = Inr rs
            \<and> mset rs = mset bs
            \<and> sorted (map full_key rs)
            \<and> (\<forall>k. filter (\<lambda>b. full_key b = k) rs = filter (\<lambda>b. full_key b = k) bs)
            \<and> (\<forall>i j. i < length rs \<and> j < length rs \<and> rank_of (rs ! i) < 99
                   \<and> rank_of (rs ! j) = 99 \<longrightarrow> i < j)
            \<and> ((\<forall>b \<in> set bs. name_is_text b) \<longrightarrow>
                  sorted (map ordering_key rs)
                  \<and> (\<forall>k. filter (\<lambda>b. ordering_key b = k) rs
                          = filter (\<lambda>b. ordering_key b = k) bs))"
    by (intro exI[of _ ?rs] conjI)
  with 7 8 9 show ?thesis by (intro conjI)
qed

theorem sort_brokers_stable_witness:
  "sort_brokers mixed_inventory = Inr mixed_inventory_sorted
   \<and> mset mixed_inventory_sorted = mset mixed_inventory
   \<and> sorted (map full_key mixed_inventory_sorted)"
proof -
  have h: "comparable_names mixed_inventory"
    by code_simp
  have r: "sort_brokers mixed_inventory = Inr mixed_inventory_sorted"
    by code_simp
  from sort_brokers_stable_by_rank_and_name[OF h] r show ?thesis
    by auto
qed

text \<open>
  C3 as stated fails: two records of priority \<^verbatim>\<open>high\<close>, one named \<^verbatim>\<open>"a"\<close> and one
  named 5, are a record sequence, and \<open>sort_brokers\<close> does not sort it: comparing the
  two names raises TypeError.
\<close>

theorem sort_brokers_stable_counterexample:
  "sort_brokers
     [[(''name'', JStr ''a''), (''priority'', JStr ''high'')],
      [(''name'', JInt 5), (''priority'', JStr ''high'')]]
   = Inl TypeError"
  by code_simp

subsection \<open>Boolean tokens\<close>

lemma of_char_lower_char:
  "(of_char (lower_char c) :: nat) = (if is_upper c then of_char c + 32 else of_char c)"
  by (auto simp add: lower_char_def is_upper_def Let_def)

lemma lower_char_plain:
  assumes "plain d"
  shows "lower_char c = d \<longleftrightarrow> same_letter c d"
proof -
  have "lower_char c = d \<longleftrightarrow> (of_char (lower_char c) :: nat) = of_char d"
    by simp
  also have "\<dots> \<longleftrightarrow> (of_char c :: nat) = of_char d
                  \<or> (97 \<le> (of_char d :: nat) \<and> (of_char d :: nat) \<le> 122
                       \<and> (of_char c :: nat) + 32 = of_char d)"
    using assms unfolding of_char_lower_char plain_def is_upper_def Let_def by auto
  also have "\<dots> \<longleftrightarrow> same_letter c d"
    by (simp add: same_letter_def)
  finally show ?thesis .
qed

lemma lower_eq_plain:
  "list_all plain tok \<Longrightarrow> lower s = tok \<longleftrightarrow> ci_equal s tok"
proof (induction tok arbitrary: s)
  case Nil
  then show ?case by (simp add: lower_def ci_equal_def)
next
  case (Cons d tok)
  then have IH: "\<And>s. lower s = tok \<longleftrightarrow> ci_equal s tok" and d: "plain d" by simp_all
  show ?case
  proof (cases s)
    case Nil
    then show ?thesis by (simp add: lower_def ci_equal_def)
  next
    case (Cons c s')
    with IH[of s'] lower_char_plain[OF d, of c] show ?thesis
      by (simp add: lower_def ci_equal_def)
  qed
qed

lemma plain_tokens: "\<forall>tok \<in> set (true_tokens @ false_tokens). list_all plain tok"
  by (simp add: true_tokens_def false_tokens_def plain_def)

lemma lower_in_true: "lower s \<in> {''true'', ''1'', ''yes'', ''y''} \<longleftrightarrow> ci_member s true_tokens"
proof -
  have "\<And>tok. tok \<in> set true_tokens \<Longrightarrow> lower s = tok \<longleftrightarrow> ci_equal s tok"
    using plain_tokens by (intro lower_eq_plain) simp
  then show ?thesis
    by (auto simp add: ci_member_def list_ex_iff true_tokens_def)
qed

lemma lower_in_false: "lower s \<in> {''false'', ''0'', ''no'', ''n''} \<longleftrightarrow> ci_member s false_tokens"
proof -
  have "\<And>tok. tok \<in> set false_tokens \<Longrightarrow> lower s = tok \<longleftrightarrow> ci_equal s tok"
    using plain_tokens by (intro lower_eq_plain) simp
  then show ?thesis
    by (auto simp add: ci_member_def list_ex_iff false_tokens_def)
qed

lemma parse_bool_eq:
  "parse_bool v =
     (if ci_member (strip v) true_tokens then Inr True
      else if ci_member (strip v) false_tokens then Inr False
      else Inl (ArgumentTypeError (''Invalid boolean value: '' @ v)))"
  unfolding parse_bool_def Let_def lower_in_true lower_in_false ..

lemma same_letter_not_space: "plain d \<Longrightarrow> same_letter c d \<Longrightarrow> \<not> is_space c"
  by (auto simp add: plain_def same_letter_def is_space_def Let_def)

lemma strip_padded:
  assumes "list_all is_space l" "list_all is_space r" "t \<noteq> []"
    "\<not> is_space (hd t)" "\<not> is_space (last t)"
  shows "strip (l @ t @ r) = t"
proof -
  have a: "dropWhile is_space (l @ t @ r) = t @ r"
    using assms(1,3,4) by (cases t) (simp_all add: dropWhile_append3 list_all_iff)
  have "dropWhile is_space (rev (t @ r)) = rev t"
    using assms(2,3,5)
    by (cases t rule: rev_cases) (simp_all add: dropWhile_append3 list_all_iff)
  with a show ?thesis by (simp add: strip_def)
qed

lemma ci_equal_ends:
  assumes "list_all plain tok" "tok \<noteq> []" "ci_equal t tok"
  shows "t \<noteq> [] \<and> \<not> is_space (hd t) \<and> \<not> is_space (last t)"
proof -
  from assms(3) have len: "length t = length tok" and
    all: "\<forall>i < length t. same_letter (t ! i) (tok ! i)"
    by (simp_all add: ci_equal_def list_all2_conv_all_nth)
  from len assms(2) have ne: "t \<noteq> []" by auto
  have pl: "\<forall>i < length tok. plain (tok ! i)"
    using assms(1) by (simp add: list_all_length)
  have "\<forall>i < length t. \<not> is_space (t ! i)"
    using all pl len same_letter_not_space by auto
  with ne show ?thesis
    by (simp add: hd_conv_nth last_conv_nth)
qed

lemma ci_member_ends:
  assumes "ci_member t true_tokens \<or> ci_member t false_tokens"
  shows "t \<noteq> [] \<and> \<not> is_space (hd t) \<and> \<not> is_space (last t)"
proof -
  from assms obtain tok where tok: "tok \<in> set (true_tokens @ false_tokens)" "ci_equal t tok"
    by (auto simp add: ci_member_def list_ex_iff)
  then have "list_all plain tok" using plain_tokens by blast
  moreover from tok(1) have "tok \<noteq> []"
    by (auto simp add: true_tokens_def false_tokens_def)
  ultimately show ?thesis using tok(2) by (rule ci_equal_ends)
qed

lemma strip_token:
  assumes "list_all is_space l" "list_all is_space r"
    "ci_member t true_tokens \<or> ci_member t false_tokens"
  shows "strip (l @ t @ r) = t"
  using ci_member_ends[OF assms(3)] assms(1,2) by (simp add: strip_padded)

lemma true_false_disjoint: "ci_member t false_tokens \<Longrightarrow> \<not> ci_member t true_tokens"
  using lower_in_true[of t] lower_in_false[of t] by auto

lemma convert_bool_Inl: "convert_bool x = Inl e \<Longrightarrow> e = SystemExit ''2''"
  by (simp add: convert_bool_def split: option.splits sum.splits)

lemma parse_args_Inl: "parse_args c = Inl e \<Longrightarrow> e = SystemExit ''2''"
  by (simp add: parse_args_def split: if_splits sum.splits) (simp_all add: convert_bool_Inl)

lemma parse_args_Inr:
  "parse_args c = Inr a \<Longrightarrow>
     convert_bool (cli_requires_phone c) = Inr (arg_requires_phone a)
     \<and> convert_bool (cli_requires_id c) = Inr (arg_requires_id a)
     \<and> convert_bool (cli_requires_payment c) = Inr (arg_requires_payment a)"
  by (simp add: parse_args_def split: if_splits sum.splits) auto

lemma main_bad_token:
  assumes "cli_requires_phone c = Some t \<or> cli_requires_id c = Some t
           \<or> cli_requires_payment c = Some t"
    and "\<not> ci_member (strip t) true_tokens" and "\<not> ci_member (strip t) false_tokens"
  shows "main read_text loads c = failed (SystemExit ''2'')"
proof (cases "parse_args c")
  case (Inl e)
  then show ?thesis using parse_args_Inl[OF Inl] by (simp add: main_def)
next
  case (Inr a)
  from assms(2,3) have "convert_bool (Some t) = Inl (SystemExit ''2'')"
    by (simp add: convert_bool_def parse_bool_eq)
  with assms(1) parse_args_Inr[OF Inr] show ?thesis by auto
qed

text \<open>
  C6, as the code has it. \<open>parse_bool\<close> removes the white space around the token
  first: it returns true exactly for the tokens that are then one of
  \<^verbatim>\<open>true\<close>, \<^verbatim>\<open>1\<close>, \<^verbatim>\<open>yes\<close>, \<^verbatim>\<open>y\<close> in any mix of capitals and small letters, false
  exactly for those that are then one of \<^verbatim>\<open>false\<close>, \<^verbatim>\<open>0\<close>, \<^verbatim>\<open>no\<close>, \<^verbatim>\<open>n\<close>, and
  raises ArgumentTypeError for every other token. So a token of one of the two sets
  with white space to its left and right is accepted. A token that is rejected, given
  for one of the three boolean options, ends the run in the argument parser: the
  inventory is not read and nothing is filtered or printed.
\<close>

theorem parse_bool_accepts:
  "parse_bool v =
     (if ci_member (strip v) true_tokens then Inr True
      else if ci_member (strip v) false_tokens then Inr False
      else Inl (ArgumentTypeError (''Invalid boolean value: '' @ v)))
   \<and> (list_all is_space l \<and> list_all is_space r \<and> ci_member t true_tokens
        \<longrightarrow> parse_bool (l @ t @ r) = Inr True)
   \<and> (list_all is_space l \<and> list_all is_space r \<and> ci_member t false_tokens
        \<longrightarrow> parse_bool (l @ t @ r) = Inr False)
   \<and> ((cli_requires_phone c = Some v \<or> cli_requires_id c = Some v
         \<or> cli_requires_payment c = Some v)
        \<and> \<not> ci_member (strip v) true_tokens \<and> \<not> ci_member (strip v) false_tokens
        \<longrightarrow> main read_text loads c = failed (SystemExit ''2''))"
proof (intro conjI impI)
  show "parse_bool v =
     (if ci_member (strip v) true_tokens then Inr True
      else if ci_member (strip v) false_tokens then Inr False
      else Inl (ArgumentTypeError (''Invalid boolean value: '' @ v)))"
    by (rule parse_bool_eq)
next
  assume "list_all is_space l \<and> list_all is_space r \<and> ci_member t true_tokens"
  then have "strip (l @ t @ r) = t" and "ci_member t true_tokens"
    by (simp_all add: strip_token)
  then show "parse_bool (l @ t @ r) = Inr True"
    by (simp add: parse_bool_eq)
next
  assume "list_all is_space l \<and> list_all is_space r \<and> ci_member t false_tokens"
  then have s: "strip (l @ t @ r) = t" and f: "ci_member t false_tokens"
    by (simp_all add: strip_token)
  from s f true_false_disjoint[OF f] show "parse_bool (l @ t @ r) = Inr False"
    by (simp add: parse_bool_eq)
next
  assume "(cli_requires_phone c = Some v \<or> cli_requires_id c = Some v
         \<or> cli_requires_payment c = Some v)
        \<and> \<not> ci_member (strip v) true_tokens \<and> \<not> ci_member (strip v) false_tokens"
  then show "main read_text loads c = failed (SystemExit ''2'')"
    using main_bad_token[of c v read_text loads] by blast
qed

theorem parse_bool_accepts_witness:
  "parse_bool ''  YeS '' = Inr True \<and> parse_bool ''N'' = Inr False
   \<and> parse_bool ''maybe'' = Inl (ArgumentTypeError ''Invalid boolean value: maybe'')
   \<and> main (\<lambda>p. NotFound) (\<lambda>t. Invalid)
       \<lparr>cli_inventory = ''data/brokers.json'', cli_command = List, cli_priority = None,
        cli_requires_phone = Some ''maybe'', cli_requires_id = None,
        cli_requires_payment = None, cli_category = None\<rparr>
     = failed (SystemExit ''2'')"
proof -
  have t: "ci_member ''YeS'' true_tokens" and f: "ci_member ''N'' false_tokens"
    and s: "strip ''maybe'' = ''maybe''"
    and n: "\<not> ci_member ''maybe'' true_tokens" "\<not> ci_member ''maybe'' false_tokens"
    by code_simp+
  have sp: "list_all is_space ''  ''" "list_all is_space '' ''" "list_all is_space []"
    by (simp_all add: is_space_def)
  let ?c = "\<lparr>cli_inventory = ''data/brokers.json'', cli_command = List, cli_priority = None,
        cli_requires_phone = Some ''maybe'', cli_requires_id = None,
        cli_requires_payment = None, cli_category = None\<rparr>"
  from parse_bool_accepts[of "''maybe''" "''  ''" "'' ''" "''YeS''" ?c "\<lambda>p. NotFound" "\<lambda>t. Invalid"]
    parse_bool_accepts[of "''maybe''" "[]" "[]" "''N''" ?c "\<lambda>p. NotFound" "\<lambda>t. Invalid"]
    t f s n sp
  show ?thesis by simp
qed

text \<open>
  C6 as stated fails: the token \<^verbatim>\<open>" yes"\<close>, with a leading space, is none of the eight
  tokens in any capitalisation, and it is accepted.
\<close>

theorem parse_bool_accepts_counterexample:
  "parse_bool '' yes'' = Inr True
   \<and> \<not> ci_member '' yes'' true_tokens \<and> \<not> ci_member '' yes'' false_tokens"
  by code_simp

subsection \<open>The CSV document\<close>

lemma writeheader_text: "writeheader = header_text"
  by code_simp

lemma csv_quote_empty: "csv_quote [] = []"
  by (simp add: csv_quote_def needs_quote_def)

lemma cell_of_default:
  "csv_quote (csv_field (dict_get_default r key (JStr '''')))
   = (case map_of r key of None \<Rightarrow> [] | Some v \<Rightarrow> csv_quote (csv_field v))"
  by (simp add: dict_get_default_def csv_field_def py_str_def csv_quote_empty
      split: option.splits)

lemma csv_line_row:
  "csv_line (map (csv_field \<circ> (\<lambda>key. dict_get_default r key (JStr ''''))) fieldnames)
   = csv_row r"
  by (simp add: csv_line_def csv_row_def csv_cells_def cell_of_default comp_def)

lemma writerows_all:
  "\<forall>r \<in> set rows. \<not> has_extra_key r \<Longrightarrow>
   writerows rows w = (w @ concat (map csv_row rows), None)"
proof (induction rows arbitrary: w)
  case Nil
  then show ?case by simp
next
  case (Cons r rows)
  then have "dict_to_list r
             = Inr (map (\<lambda>key. dict_get_default r key (JStr '''')) fieldnames)"
    by (simp add: dict_to_list_ok)
  with Cons show ?case
    by (simp add: csv_line_row)
qed

lemma csv_cells_missing:
  "i < length fieldnames \<Longrightarrow> map_of r (fieldnames ! i) = None \<Longrightarrow> csv_cells r ! i = []"
  by (simp add: csv_cells_def)

lemma length_fieldnames: "length fieldnames = 7"
  by (simp add: fieldnames_def)

text \<open>
  C7, as the code has it. For a sequence of records whose keys are all among the seven
  field names, \<open>export_csv\<close> writes the header line with the fixed field order and
  then one line per record, in order, with seven cells of which those of missing fields
  are empty, and ends normally; on the empty sequence it writes the header line alone.
\<close>

theorem export_csv_document:
  assumes "\<forall>r \<in> set brokers. \<not> has_extra_key r"
  shows "export_csv brokers output
           = emit output (header_text @ concat (map csv_row brokers)) None
         \<and> (\<forall>r \<in> set brokers. length (csv_cells r) = 7
               \<and> (\<forall>i < 7. map_of r (fieldnames ! i) = None \<longrightarrow> csv_cells r ! i = []))
         \<and> export_csv [] output = emit output header_text None"
proof (intro conjI ballI allI impI)
  show "export_csv brokers output
           = emit output (header_text @ concat (map csv_row brokers)) None"
    using assms by (simp add: export_csv_def writerows_all writeheader_text)
next
  fix r :: broker
  show "length (csv_cells r) = 7"
    by (simp add: csv_cells_def length_fieldnames)
next
  fix r :: broker and i :: nat
  assume "i < 7" and "map_of r (fieldnames ! i) = None"
  then show "csv_cells r ! i = []"
    by (simp add: csv_cells_missing length_fieldnames)
next
  show "export_csv [] output = emit output header_text None"
    by (simp add: export_csv_def writeheader_text)
qed

theorem export_csv_document_witness:
  "export_csv
     [[(''name'', JStr ''Acme, Inc.''), (''requires_phone'', JBool True)],
      [(''priority'', JStr ''high''), (''opt_out_url'', JStr ''https://b.example/optout'')]]
     None
   = \<lparr>out_stdout =
        ''name,priority,category,requires_phone,requires_id,requires_payment,opt_out_url''
        @ [CR, LF] @ [DQ] @ ''Acme, Inc.'' @ [DQ] @ '',,,True,,,'' @ [CR, LF]
        @ '',high,,,,,https://b.example/optout'' @ [CR, LF],
      out_file = None, out_status = None\<rparr>"
proof -
  let ?bs = "[[(''name'', JStr ''Acme, Inc.''), (''requires_phone'', JBool True)],
      [(''priority'', JStr ''high''), (''opt_out_url'', JStr ''https://b.example/optout'')]]"
  have h: "\<forall>r \<in> set ?bs. \<not> has_extra_key r"
    by (simp add: has_extra_key_def fieldnames_def)
  have t: "header_text @ concat (map csv_row ?bs)
           = ''name,priority,category,requires_phone,requires_id,requires_payment,opt_out_url''
             @ [CR, LF] @ [DQ] @ ''Acme, Inc.'' @ [DQ] @ '',,,True,,,'' @ [CR, LF]
             @ '',high,,,,,https://b.example/optout'' @ [CR, LF]"
    by code_simp
  from export_csv_document[OF h, of None] t show ?thesis
    by (simp add: emit_def)
qed

text \<open>
  C7 as stated fails: for the one record \<^verbatim>\<open>{"name": "Acme", "notes": "x"}\<close> the output
  is the header line alone, with no line for the record, and the call raises ValueError.
\<close>

theorem export_csv_document_counterexample:
  "export_csv [[(''name'', JStr ''Acme''), (''notes'', JStr ''x'')]] None
     = \<lparr>out_stdout = header_text, out_file = None, out_status = Some ValueError\<rparr>
   \<and> export_csv [[(''name'', JStr ''Acme''), (''notes'', JStr ''x'')]] None
     \<noteq> emit None
         (header_text @ concat (map csv_row [[(''name'', JStr ''Acme''), (''notes'', JStr ''x'')]]))
         None"
proof -
  have "dict_to_list [(''name'', JStr ''Acme''), (''notes'', JStr ''x'')] = Inl ValueError"
    by (simp add: dict_to_list_def fieldnames_def)
  then have "export_csv [[(''name'', JStr ''Acme''), (''notes'', JStr ''x'')]] None
     = \<lparr>out_stdout = header_text, out_file = None, out_status = Some ValueError\<rparr>"
    by (simp add: export_csv_def writeheader_text emit_def)
  then show ?thesis by (simp add: emit_def)
qed

subsection \<open>CSV export of a record with an unknown key\<close>

lemma writerows_prefix:
  "writerows rows w
   = (w @ concat (map csv_row (takeWhile (\<lambda>r. \<not> has_extra_key r) rows)),
      if list_ex has_extra_key rows then Some ValueError else None)"
proof (induction rows arbitrary: w)
  case Nil
  then show ?case by simp
next
  case (Cons r rows)
  show ?case
  proof (cases "has_extra_key r")
    case True
    then show ?thesis by (simp add: dict_to_list_extra)
  next
    case False
    then show ?thesis by (simp add: dict_to_list_ok Cons.IH csv_line_row)
  qed
qed

lemma written_text_emit: "written_text (emit output body st) = body"
  by (simp add: written_text_def emit_def split: option.splits)

text \<open>
  C9, as the code has it. For a sequence with a record that has a key outside the seven
  field names, \<open>export_csv\<close> ends with the ValueError of the dictionary writer. It
  does not complete the output and writes no line for that record or for any record
  after it, but it has written something: the header line and the lines of the records
  before the first such record. On the same sequence \<open>export_json\<close> ends normally.
\<close>

theorem export_csv_rejects_unknown_key:
  assumes "r \<in> set brokers" and "k \<in> set (map fst r)" and "k \<notin> set fieldnames"
  shows "out_status (export_csv brokers output) = Some ValueError
         \<and> written_text (export_csv brokers output)
             = header_text
               @ concat (map csv_row (takeWhile (\<lambda>r. \<not> has_extra_key r) brokers))
         \<and> out_status (export_json brokers output) = None"
proof -
  from assms(2,3) have "has_extra_key r"
    unfolding has_extra_key_def list_ex_iff by blast
  with assms(1) have "list_ex has_extra_key brokers"
    unfolding list_ex_iff by blast
  then have "export_csv brokers output
             = emit output
                 (header_text
                  @ concat (map csv_row (takeWhile (\<lambda>r. \<not> has_extra_key r) brokers)))
                 (Some ValueError)"
    by (simp add: export_csv_def writerows_prefix writeheader_text)
  moreover have "out_status (export_json brokers output) = None"
    by (simp add: export_json_def split: option.splits)
  ultimately show ?thesis
    by (simp add: out_status_emit written_text_emit)
qed

theorem export_csv_rejects_unknown_key_witness:
  "out_status
     (export_csv [[(''name'', JStr ''Beta'')],
                  [(''name'', JStr ''Acme''), (''notes'', JStr ''call first'')],
                  [(''name'', JStr ''Zeta'')]] None)
     = Some ValueError
   \<and> written_text
       (export_csv [[(''name'', JStr ''Beta'')],
                    [(''name'', JStr ''Acme''), (''notes'', JStr ''call first'')],
                    [(''name'', JStr ''Zeta'')]] None)
     = header_text @ ''Beta,,,,,,'' @ [CR, LF]
   \<and> out_status
       (export_json [[(''name'', JStr ''Beta'')],
                     [(''name'', JStr ''Acme''), (''notes'', JStr ''call first'')],
                     [(''name'', JStr ''Zeta'')]] None)
     = None"
proof -
  let ?bs = "[[(''name'', JStr ''Beta'')],
              [(''name'', JStr ''Acme''), (''notes'', JStr ''call first'')],
              [(''name'', JStr ''Zeta'')]]"
  have rows: "concat (map csv_row (takeWhile (\<lambda>r. \<not> has_extra_key r) ?bs))
              = ''Beta,,,,,,'' @ [CR, LF]"
    by code_simp
  have "[(''name'', JStr ''Acme''), (''notes'', JStr ''call first'')] \<in> set ?bs"
    and "''notes'' \<in> set (map fst [(''name'', JStr ''Acme''), (''notes'', JStr ''call first'')])"
    and "''notes'' \<notin> set fieldnames"
    by (simp_all add: fieldnames_def)
  from export_csv_rejects_unknown_key[OF this, of None] rows show ?thesis
    by simp
qed

text \<open>
  C9 as stated fails on the words "instead of producing output": when the error is
  raised the header line and the line of the record before the offending one are
  already on standard output.
\<close>

theorem export_csv_rejects_unknown_key_counterexample:
  "out_status
     (export_csv [[(''name'', JStr ''Beta'')],
                  [(''name'', JStr ''Acme''), (''source'', JStr ''web'')]] None)
     = Some ValueError
   \<and> out_stdout
       (export_csv [[(''name'', JStr ''Beta'')],
                    [(''name'', JStr ''Acme''), (''source'', JStr ''web'')]] None)
     = ''name,priority,category,requires_phone,requires_id,requires_payment,opt_out_url''
       @ [CR, LF] @ ''Beta,,,,,,'' @ [CR, LF]
   \<and> out_stdout
       (export_csv [[(''name'', JStr ''Beta'')],
                    [(''name'', JStr ''Acme''), (''source'', JStr ''web'')]] None)
     \<noteq> []"
  by code_simp

subsection \<open>Characters by their codes\<close>

lemma char_eq_code: "c = d \<longleftrightarrow> (of_char c :: nat) = of_char d"
  by simp

lemma special_codes:
  "c = DQ \<longleftrightarrow> (of_char c :: nat) = 34"
  "c = BSL \<longleftrightarrow> (of_char c :: nat) = 92"
  "c = LF \<longleftrightarrow> (of_char c :: nat) = 10"
  "c = CR \<longleftrightarrow> (of_char c :: nat) = 13"
  "c = CHR 0x09 \<longleftrightarrow> (of_char c :: nat) = 9"
  "c = CHR 0x08 \<longleftrightarrow> (of_char c :: nat) = 8"
  "c = CHR 0x0C \<longleftrightarrow> (of_char c :: nat) = 12"
  "c = CHR '' '' \<longleftrightarrow> (of_char c :: nat) = 32"
  "c = CHR ''['' \<longleftrightarrow> (of_char c :: nat) = 91"
  "c = CHR '']'' \<longleftrightarrow> (of_char c :: nat) = 93"
  "c = CHR ''{'' \<longleftrightarrow> (of_char c :: nat) = 123"
  "c = CHR ''}'' \<longleftrightarrow> (of_char c :: nat) = 125"
  "c = CHR '','' \<longleftrightarrow> (of_char c :: nat) = 44"
  "c = CHR '':'' \<longleftrightarrow> (of_char c :: nat) = 58"
  "c = CHR ''-'' \<longleftrightarrow> (of_char c :: nat) = 45"
  "c = CHR ''/'' \<longleftrightarrow> (of_char c :: nat) = 47"
  "c = CHR ''0'' \<longleftrightarrow> (of_char c :: nat) = 48"
  "c = CHR ''u'' \<longleftrightarrow> (of_char c :: nat) = 117"
  "c = CHR ''b'' \<longleftrightarrow> (of_char c :: nat) = 98"
  "c = CHR ''f'' \<longleftrightarrow> (of_char c :: nat) = 102"
  "c = CHR ''n'' \<longleftrightarrow> (of_char c :: nat) = 110"
  "c = CHR ''r'' \<longleftrightarrow> (of_char c :: nat) = 114"
  "c = CHR ''t'' \<longleftrightarrow> (of_char c :: nat) = 116"
  unfolding DQ_def BSL_def LF_def CR_def
  by (simp_all add: char_eq_code[of c])

lemma of_char_digit_char: "d < 10 \<Longrightarrow> (of_char (digit_char d) :: nat) = 48 + d"
  by (simp add: digit_char_def)

lemma of_char_hex_char:
  "d < 16 \<Longrightarrow> (of_char (hex_char d) :: nat) = (if d < 10 then 48 + d else 87 + d)"
  by (simp add: hex_char_def)

lemma is_digit_digit_char: "d < 10 \<Longrightarrow> is_digit (digit_char d)"
  by (simp add: is_digit_def of_char_digit_char)

lemma digit_val_digit_char: "d < 10 \<Longrightarrow> digit_val (digit_char d) = d"
  by (simp add: digit_val_def of_char_digit_char)

lemma hex_val_hex_char: "d < 16 \<Longrightarrow> hex_val (hex_char d) = Some d"
  by (simp add: hex_val_def of_char_hex_char)

lemma hex_val_zero: "hex_val CHR ''0'' = Some 0"
  by (simp add: hex_val_def)

subsection \<open>Decimal numbers are read back\<close>

lemma show_nat_unfold:
  "show_nat n = (if n < 10 then [digit_char n] else show_nat (n div 10) @ [digit_char (n mod 10)])"
  by (rule show_nat.simps)

lemma show_nat_digits: "list_all is_digit (show_nat n)"
proof (induction n rule: show_nat.induct)
  case (1 n)
  show ?case
  proof (cases "n < 10")
    case True
    then show ?thesis by (subst show_nat_unfold) (simp add: is_digit_digit_char)
  next
    case False
    with 1 show ?thesis by (subst show_nat_unfold) (simp add: is_digit_digit_char)
  qed
qed

lemma show_nat_nonempty: "show_nat n \<noteq> []"
  by (subst show_nat_unfold) simp

lemma show_nat_value: "foldl (\<lambda>a d. 10 * a + digit_val d) 0 (show_nat n) = n"
proof (induction n rule: show_nat.induct)
  case (1 n)
  show ?case
  proof (cases "n < 10")
    case True
    then show ?thesis by (subst show_nat_unfold) (simp add: digit_val_digit_char)
  next
    case False
    with 1 show ?thesis by (subst show_nat_unfold) (simp add: digit_val_digit_char)
  qed
qed

lemma show_nat_hd: "0 < n \<Longrightarrow> hd (show_nat n) \<noteq> CHR ''0''"
proof (induction n rule: show_nat.induct)
  case (1 n)
  show ?case
  proof (cases "n < 10")
    case True
    with 1(2) show ?thesis
      by (subst show_nat_unfold) (simp add: special_codes of_char_digit_char)
  next
    case False
    then have "0 < n div 10" by simp
    with 1(1) False have "hd (show_nat (n div 10)) \<noteq> CHR ''0''" by simp
    with False show ?thesis
      by (subst show_nat_unfold) (simp add: show_nat_nonempty)
  qed
qed

lemma show_nat_zero: "show_nat 0 = [digit_char 0]"
  by (subst show_nat_unfold) simp

lemma read_nat_show_nat: "read_nat (show_nat n) = Some n"
proof (cases "n = 0")
  case True
  then show ?thesis
    by (simp add: read_nat_def show_nat_zero is_digit_digit_char digit_val_digit_char)
next
  case False
  then have "hd (show_nat n) \<noteq> CHR ''0''" by (simp add: show_nat_hd)
  then show ?thesis
    by (simp add: read_nat_def show_nat_digits show_nat_nonempty show_nat_value)
qed

lemma show_nat_hd_digit: "is_digit (hd (show_nat n))"
  using show_nat_digits[of n] show_nat_nonempty[of n]
  by (cases "show_nat n") simp_all

lemma read_int_show_int: "read_int (show_int i) = Some i"
proof (cases "i < 0")
  case True
  then show ?thesis by (simp add: read_int_def show_int_def read_nat_show_nat)
next
  case False
  obtain c ds where cs: "show_nat (nat i) = c # ds"
    using show_nat_nonempty[of "nat i"] by (cases "show_nat (nat i)") auto
  with show_nat_hd_digit[of "nat i"] have "c \<noteq> CHR ''-''"
    by (auto simp add: is_digit_def special_codes)
  with False cs read_nat_show_nat[of "nat i"] show ?thesis
    by (simp add: read_int_def show_int_def)
qed

subsection \<open>Scanning what the encoder writes\<close>

lemma idle_step_simps:
  "idle_step ts CHR '' '' = (ts, Idle)"
  "idle_step ts LF = (ts, Idle)"
  "idle_step ts CHR ''['' = (ts @ [TLBrack], Idle)"
  "idle_step ts CHR '']'' = (ts @ [TRBrack], Idle)"
  "idle_step ts CHR ''{'' = (ts @ [TLBrace], Idle)"
  "idle_step ts CHR ''}'' = (ts @ [TRBrace], Idle)"
  "idle_step ts CHR '','' = (ts @ [TComma], Idle)"
  "idle_step ts CHR '':'' = (ts @ [TColon], Idle)"
  "idle_step ts DQ = (ts, InStr [])"
  by (simp_all add: idle_step_def LF_def CR_def DQ_def)

lemma idle_step_minus: "idle_step ts CHR ''-'' = (ts, InNum ''-'')"
  by (simp add: idle_step_def LF_def CR_def DQ_def)

lemma idle_step_digit: "is_digit c \<Longrightarrow> idle_step ts c = (ts, InNum [c])"
  by (auto simp add: idle_step_def is_digit_def special_codes)

lemma lex_idle: "lex_step (ts, Idle) c = idle_step ts c"
  by (simp add: lex_step_def)

lemma lex_digits:
  "list_all is_digit ds \<Longrightarrow> foldl lex_step (ts, InNum cs) ds = (ts, InNum (cs @ ds))"
  by (induction ds arbitrary: cs) (simp_all add: lex_step_def)

lemma lex_show_nat:
  "foldl lex_step (ts, Idle) (show_nat n) = (ts, InNum (show_nat n))"
proof -
  obtain c ds where cs: "show_nat n = c # ds"
    using show_nat_nonempty[of n] by (cases "show_nat n") auto
  with show_nat_digits[of n] have "is_digit c" and "list_all is_digit ds" by simp_all
  then show ?thesis
    by (simp add: cs lex_idle idle_step_digit lex_digits)
qed

lemma lex_show_int:
  "foldl lex_step (ts, Idle) (show_int i) = (ts, InNum (show_int i))"
proof (cases "i < 0")
  case True
  then show ?thesis
    by (simp add: show_int_def lex_idle idle_step_minus lex_digits show_nat_digits)
next
  case False
  then show ?thesis by (simp add: show_int_def lex_show_nat)
qed

text \<open>The two characters that follow a value in the encoder's output.\<close>

lemma delim_not_digit: "d = CHR '','' \<or> d = LF \<Longrightarrow> \<not> is_digit d \<and> \<not> is_letter d"
  by (auto simp add: is_digit_def is_letter_def LF_def)

lemma lex_int_delim:
  assumes "d = CHR '','' \<or> d = LF"
  shows "foldl lex_step (ts, Idle) (show_int i @ [d]) = idle_step (ts @ [TScalar (JInt i)]) d"
  using delim_not_digit[OF assms]
  by (simp add: lex_show_int lex_step_def close_atom_def read_int_show_int)

lemma lex_true: "foldl lex_step (ts, Idle) ''true'' = (ts, InWord ''true'')"
  by (simp add: lex_step_def idle_step_def is_letter_def is_digit_def LF_def CR_def DQ_def)

lemma lex_false: "foldl lex_step (ts, Idle) ''false'' = (ts, InWord ''false'')"
  by (simp add: lex_step_def idle_step_def is_letter_def is_digit_def LF_def CR_def DQ_def)

lemma lex_null: "foldl lex_step (ts, Idle) ''null'' = (ts, InWord ''null'')"
  by (simp add: lex_step_def idle_step_def is_letter_def is_digit_def LF_def CR_def DQ_def)

lemma lex_word_delim:
  assumes "d = CHR '','' \<or> d = LF"
  shows "foldl lex_step (ts, Idle) (''true'' @ [d]) = idle_step (ts @ [TScalar (JBool True)]) d"
    and "foldl lex_step (ts, Idle) (''false'' @ [d]) = idle_step (ts @ [TScalar (JBool False)]) d"
    and "foldl lex_step (ts, Idle) (''null'' @ [d]) = idle_step (ts @ [TScalar JNull]) d"
  using delim_not_digit[OF assms]
  by (simp_all only: foldl_append lex_true lex_false lex_null)
     (simp_all add: lex_step_def close_atom_def)

lemma step_InStr_bsl: "lex_step (ts, InStr acc) BSL = (ts, InEsc acc)"
  by (simp add: lex_step_def DQ_def BSL_def)

lemma step_InEsc_u: "lex_step (ts, InEsc acc) CHR ''u'' = (ts, InHex acc [])"
  by (simp add: lex_step_def)

lemma step_InHex:
  "hex_val c = Some d \<Longrightarrow> length ds < 3 \<Longrightarrow>
   lex_step (ts, InHex acc ds) c = (ts, InHex acc (ds @ [d]))"
  by (simp add: lex_step_def)

lemma step_InHex_last:
  "hex_val c = Some d \<Longrightarrow> length ds = 3 \<Longrightarrow>
   foldl (\<lambda>a h. 16 * a + h) 0 (ds @ [d]) = n \<Longrightarrow> n < 256 \<Longrightarrow>
   lex_step (ts, InHex acc ds) c = (ts, InStr (acc @ [char_of n]))"
  by (simp add: lex_step_def)

lemma lex_escape_char:
  "foldl lex_step (ts, InStr acc) (escape_char c) = (ts, InStr (acc @ [c]))"
proof -
  let ?n = "of_char c :: nat"
  consider (dq) "c = DQ" | (bsl) "c = BSL" | (b) "?n = 8" | (f) "?n = 12" | (n) "?n = 10"
    | (r) "?n = 13" | (t) "?n = 9"
    | (hex) "c \<noteq> DQ" "c \<noteq> BSL" "?n \<notin> {8, 9, 10, 12, 13}" "?n < 32 \<or> 126 < ?n"
    | (plain) "c \<noteq> DQ" "c \<noteq> BSL" "32 \<le> ?n" "?n \<le> 126"
    by force
  then show ?thesis
  proof cases
    case dq
    then show ?thesis
      by (simp add: escape_char_def lex_step_def unescape_def special_codes DQ_def BSL_def)
  next
    case bsl
    then show ?thesis
      by (simp add: escape_char_def lex_step_def unescape_def special_codes DQ_def BSL_def)
  next
    case b
    then have "c = CHR 0x08" by (simp add: special_codes)
    then show ?thesis
      by (simp add: escape_char_def lex_step_def unescape_def DQ_def BSL_def LF_def CR_def)
  next
    case f
    then have "c = CHR 0x0C" by (simp add: special_codes)
    then show ?thesis
      by (simp add: escape_char_def lex_step_def unescape_def DQ_def BSL_def LF_def CR_def)
  next
    case n
    then have "c = CHR 0x0A" by (simp add: special_codes[unfolded LF_def])
    then show ?thesis
      by (simp add: escape_char_def lex_step_def unescape_def DQ_def BSL_def LF_def CR_def)
  next
    case r
    then have "c = CHR 0x0D" by (simp add: special_codes[unfolded CR_def])
    then show ?thesis
      by (simp add: escape_char_def lex_step_def unescape_def DQ_def BSL_def LF_def CR_def)
  next
    case t
    then have "c = CHR 0x09" by (simp add: special_codes)
    then show ?thesis
      by (simp add: escape_char_def lex_step_def unescape_def DQ_def BSL_def LF_def CR_def)
  next
    case hex
    have lt: "?n div 16 < 16" "?n mod 16 < 16"
      using nat_of_char_less_256[of c] by (presburger+)
    have esc: "escape_char c
          = [BSL, CHR ''u'', CHR ''0'', CHR ''0'', hex_char (?n div 16), hex_char (?n mod 16)]"
      using hex by (auto simp add: escape_char_def Let_def)
    have again: "char_of (16 * (?n div 16) + ?n mod 16) = c"
      by simp
    have small: "16 * (?n div 16) + ?n mod 16 < 256"
      using nat_of_char_less_256[of c] by simp
    have last: "lex_step (ts, InHex acc [0, 0, ?n div 16]) (hex_char (?n mod 16))
                = (ts, InStr (acc @ [c]))"
      using step_InHex_last[OF hex_val_hex_char[OF lt(2)], of "[0, 0, ?n div 16]"
          "16 * (?n div 16) + ?n mod 16" ts acc] small again
      by simp
    show ?thesis
      unfolding esc
      by (simp add: step_InStr_bsl step_InEsc_u step_InHex[OF hex_val_zero]
          step_InHex[OF hex_val_hex_char[OF lt(1)]] last)
  next
    case plain
    then have "escape_char c = [c]"
      by (auto simp add: escape_char_def Let_def)
    with plain show ?thesis
      by (simp add: lex_step_def)
  qed
qed

lemma lex_escaped:
  "foldl lex_step (ts, InStr acc) (concat (map escape_char s)) = (ts, InStr (acc @ s))"
  by (induction s arbitrary: acc) (simp_all add: lex_escape_char)

lemma lex_encode_str:
  "foldl lex_step (ts, Idle) (encode_str s) = (ts @ [TScalar (JStr s)], Idle)"
  by (simp add: encode_str_def lex_idle idle_step_simps lex_escaped)
     (simp add: lex_step_def)

lemma lex_scalar_delim:
  assumes "d = CHR '','' \<or> d = LF"
  shows "foldl lex_step (ts, Idle) (dumps_scalar v @ [d]) = idle_step (ts @ [TScalar v]) d"
proof (cases v)
  case JNull
  then show ?thesis using lex_word_delim(3)[OF assms] by (simp add: dumps_scalar_def)
next
  case (JBool b)
  then show ?thesis
    using lex_word_delim(1)[OF assms] lex_word_delim(2)[OF assms]
    by (cases b) (simp_all add: dumps_scalar_def)
next
  case (JInt i)
  then show ?thesis using lex_int_delim[OF assms] by (simp add: dumps_scalar_def)
next
  case (JStr s)
  then show ?thesis by (simp add: dumps_scalar_def lex_encode_str lex_idle)
qed

lemma lex_scalar_then:
  "d = CHR '','' \<or> d = LF \<Longrightarrow>
   lex_step (foldl lex_step (ts, Idle) (dumps_scalar v)) d = idle_step (ts @ [TScalar v]) d"
  using lex_scalar_delim[of d ts v] by simp

lemma lex_join:
  assumes each: "\<And>x ts d. x \<in> set xs \<Longrightarrow> d = CHR '','' \<or> d = LF \<Longrightarrow>
                   lex_step (foldl lex_step (ts, Idle) (f x)) d = idle_step (ts @ g x) d"
    and "xs \<noteq> []"
  shows "lex_step (foldl lex_step (ts, Idle) (join ('','' @ [LF]) (map f xs))) LF
         = (ts @ sep_tokens (map g xs), Idle)"
  using assms
proof (induction xs arbitrary: ts)
  case Nil
  then show ?case by simp
next
  case (Cons x xs)
  show ?case
  proof (cases xs)
    case Nil
    then show ?thesis
      using Cons.prems(1)[of x LF ts] by (simp add: idle_step_simps)
  next
    case (Cons y ys)
    have first: "lex_step (foldl lex_step (ts, Idle) (f x)) CHR '','' = (ts @ g x @ [TComma], Idle)"
      using Cons.prems(1)[of x "CHR '',''" ts] by (simp add: idle_step_simps)
    have rest: "lex_step (foldl lex_step (ts @ g x @ [TComma], Idle)
                  (join ('','' @ [LF]) (map f (y # ys)))) LF
                = ((ts @ g x @ [TComma]) @ sep_tokens (map g (y # ys)), Idle)"
      using Cons.IH[of "ts @ g x @ [TComma]"] Cons.prems(1) Cons by simp
    have "foldl lex_step (ts, Idle) (join ('','' @ [LF]) (map f (x # y # ys)))
          = foldl lex_step (ts @ g x @ [TComma], Idle) (join ('','' @ [LF]) (map f (y # ys)))"
      by (simp add: first lex_idle idle_step_simps)
    with rest show ?thesis
      unfolding Cons by simp
  qed
qed

lemma lex_item:
  assumes "d = CHR '','' \<or> d = LF"
  shows "lex_step (foldl lex_step (ts, Idle) (dumps_item kv)) d = idle_step (ts @ item_tokens kv) d"
proof -
  have "foldl lex_step (ts, Idle) (dumps_item kv)
        = foldl lex_step (ts @ [TScalar (JStr (fst kv)), TColon], Idle) (dumps_scalar (snd kv))"
    by (simp add: dumps_item_def lex_idle idle_step_simps lex_encode_str)
  then show ?thesis
    using lex_scalar_then[OF assms, of "ts @ [TScalar (JStr (fst kv)), TColon]" "snd kv"]
    by (simp add: item_tokens_def)
qed

lemma lex_dict:
  "foldl lex_step (ts, Idle) (dumps_dict d) = (ts @ obj_tokens d, Idle)"
proof (cases "d = []")
  case True
  then show ?thesis
    by (simp add: dumps_dict_def obj_tokens_def lex_idle idle_step_simps)
next
  case False
  let ?items = "sort_key fst d"
  from False have ne: "?items \<noteq> []"
    by (metis length_0_conv length_sort)
  have body: "lex_step (foldl lex_step (ts @ [TLBrace], Idle)
                 (join ('','' @ [LF]) (map dumps_item ?items))) LF
               = ((ts @ [TLBrace]) @ sep_tokens (map item_tokens ?items), Idle)"
    using lex_join[of ?items dumps_item item_tokens "ts @ [TLBrace]"] lex_item ne by blast
  have "foldl lex_step (ts, Idle) (dumps_dict d)
        = foldl lex_step
            (lex_step (foldl lex_step (ts @ [TLBrace], Idle)
               (join ('','' @ [LF]) (map dumps_item ?items))) LF)
            ''  }''"
    using False by (simp add: dumps_dict_def lex_idle idle_step_simps)
  also have "\<dots> = (ts @ obj_tokens d, Idle)"
    unfolding body by (simp add: lex_idle idle_step_simps obj_tokens_def)
  finally show ?thesis .
qed

lemma lex_dict_then:
  assumes "d = CHR '','' \<or> d = LF"
  shows "lex_step (foldl lex_step (ts, Idle) (''  '' @ dumps_dict r)) d
         = idle_step (ts @ obj_tokens r) d"
  by (simp add: lex_idle idle_step_simps lex_dict)

lemma lex_dumps: "foldl lex_step ([], Idle) (dumps payload) = (doc_tokens payload, Idle)"
proof (cases "payload = []")
  case True
  then show ?thesis
    by (simp add: dumps_def doc_tokens_def lex_idle idle_step_simps)
next
  case False
  let ?f = "\<lambda>r. ''  '' @ dumps_dict r"
  have body: "lex_step (foldl lex_step ([TLBrack], Idle)
                 (join ('','' @ [LF]) (map ?f payload))) LF
               = ([TLBrack] @ sep_tokens (map obj_tokens payload), Idle)"
    using lex_join[of payload ?f obj_tokens "[TLBrack]"] lex_dict_then False
    by blast
  have "foldl lex_step ([], Idle) (dumps payload)
        = foldl lex_step
            (lex_step (foldl lex_step ([TLBrack], Idle)
               (join ('','' @ [LF]) (map ?f payload))) LF)
            '']''"
    using False by (simp add: dumps_def lex_idle idle_step_simps)
  also have "\<dots> = (doc_tokens payload, Idle)"
    unfolding body by (simp add: lex_idle idle_step_simps doc_tokens_def)
  finally show ?thesis .
qed

lemma scan_dumps:
  "scan (dumps payload) = Some (doc_tokens payload)"
  "scan (dumps payload @ [LF]) = Some (doc_tokens payload)"
  by (simp_all add: scan_def lex_dumps close_atom_def lex_idle idle_step_simps)

subsection \<open>Parsing the tokens\<close>

lemma parse_item:
  "m = ObjOpen \<or> m = NeedKey \<Longrightarrow>
   foldl parse_step (m, recs, cur) (item_tokens kv) = (AfterVal, recs, cur @ [kv])"
  by (auto simp add: item_tokens_def parse_step_def)

lemma parse_items:
  "kvs \<noteq> [] \<Longrightarrow> m = ObjOpen \<or> m = NeedKey \<Longrightarrow>
   foldl parse_step (m, recs, cur) (sep_tokens (map item_tokens kvs)) = (AfterVal, recs, cur @ kvs)"
proof (induction kvs arbitrary: m cur)
  case Nil
  then show ?case by simp
next
  case (Cons kv kvs)
  show ?case
  proof (cases kvs)
    case Nil
    with Cons.prems show ?thesis by (simp add: parse_item)
  next
    case (Cons kv' kvs')
    have "foldl parse_step (NeedKey, recs, cur @ [kv]) (sep_tokens (map item_tokens kvs))
          = (AfterVal, recs, (cur @ [kv]) @ kvs)"
      using Cons by (intro Cons.IH) simp_all
    with Cons Cons.prems show ?thesis
      by (simp add: parse_item) (simp add: parse_step_def)
  qed
qed

lemma parse_obj:
  assumes "m = ArrOpen \<or> m = NeedObj"
  shows "foldl parse_step (m, recs, cur) (obj_tokens d) = (AfterObj, recs @ [sort_key fst d], [])"
proof (cases "d = []")
  case True
  with assms show ?thesis
    by (auto simp add: obj_tokens_def parse_step_def)
next
  case False
  then have ne: "sort_key fst d \<noteq> []"
    by (metis length_0_conv length_sort)
  have open_obj: "parse_step (m, recs, cur) TLBrace = (ObjOpen, recs, [])"
    using assms by (auto simp add: parse_step_def)
  have close_obj: "parse_step (AfterVal, recs, sort_key fst d) TRBrace
                   = (AfterObj, recs @ [sort_key fst d], [])"
    by (simp add: parse_step_def)
  show ?thesis
    using parse_items[OF ne, of ObjOpen recs "[]"]
    by (simp add: obj_tokens_def open_obj close_obj)
qed

lemma parse_objs:
  "ds \<noteq> [] \<Longrightarrow> m = ArrOpen \<or> m = NeedObj \<Longrightarrow>
   foldl parse_step (m, recs, cur) (sep_tokens (map obj_tokens ds))
   = (AfterObj, recs @ map (sort_key fst) ds, [])"
proof (induction ds arbitrary: m recs cur)
  case Nil
  then show ?case by simp
next
  case (Cons d ds)
  show ?case
  proof (cases ds)
    case Nil
    with Cons.prems show ?thesis by (simp add: parse_obj)
  next
    case (Cons d' ds')
    have "foldl parse_step (NeedObj, recs @ [sort_key fst d], [])
            (sep_tokens (map obj_tokens ds))
          = (AfterObj, (recs @ [sort_key fst d]) @ map (sort_key fst) ds, [])"
      using Cons by (intro Cons.IH) simp_all
    with Cons Cons.prems show ?thesis
      by (simp add: parse_obj) (simp add: parse_step_def)
  qed
qed

lemma parse_doc: "parse_tokens (doc_tokens ds) = Some (map (sort_key fst) ds)"
proof (cases "ds = []")
  case True
  then show ?thesis
    by (simp add: parse_tokens_def doc_tokens_def parse_step_def)
next
  case False
  have "parse_step (Start, [], []) TLBrack = (ArrOpen, [], [])"
    by (simp add: parse_step_def)
  moreover have "parse_step (AfterObj, map (sort_key fst) ds, []) TRBrack
                 = (Done, map (sort_key fst) ds, [])"
    by (simp add: parse_step_def)
  ultimately show ?thesis
    using parse_objs[OF False, of ArrOpen "[]" "[]"]
    by (simp add: parse_tokens_def doc_tokens_def)
qed

lemma read_json_dumps:
  "read_json (dumps payload) = Some (map (sort_key fst) payload)"
  "read_json (dumps payload @ [LF]) = Some (map (sort_key fst) payload)"
  by (simp_all add: read_json_def scan_dumps parse_doc)

subsection \<open>The round trip of the JSON export\<close>

lemma written_export_json:
  "written_text (export_json brokers output)
   = (case output of Some path \<Rightarrow> dumps brokers | None \<Rightarrow> dumps brokers @ [LF])"
  by (simp add: written_text_def export_json_def split: option.splits)

lemma read_export_json:
  "read_json (written_text (export_json brokers output)) = Some (map (sort_key fst) brokers)"
  by (simp add: written_export_json read_json_dumps split: option.splits)

lemma filter_inventory_subset: "set (filter_inventory bs p rp ri ry c) \<subseteq> set bs"
  by (simp add: filter_inventory_eq)

lemma run_export_json:
  assumes "load_inventory read_text loads (arg_inventory a) = Inr data"
    and "as_records data = Inr bs"
    and "sort_brokers (filter_inventory bs (arg_priority a) (arg_requires_phone a)
           (arg_requires_id a) (arg_requires_payment a) (arg_category a)) = Inr ordered"
    and "arg_command a = Export Json output"
  shows "run read_text loads a = export_json ordered output"
  using assms by (simp add: run_def)

text \<open>
  C4. Take an inventory that loads as a list of records whose names, when present, are
  strings, any filter options, and the command \<^verbatim>\<open>export --format json\<close> with or without
  an output path. The run ends normally, and reading the text it wrote gives one record
  for each record of the filtered and ordered sequence, in the same order, each with
  exactly the key and value pairs of the record it stands for (listed in the order of
  the keys, as the text has them).
\<close>

theorem export_json_round_trip:
  assumes "load_inventory read_text loads (arg_inventory a) = Inr data"
    and "as_records data = Inr bs"
    and "\<forall>b \<in> set bs. name_is_text b"
    and "arg_command a = Export Json output"
  shows "\<exists>ordered parsed.
           sort_brokers (filter_inventory bs (arg_priority a) (arg_requires_phone a)
             (arg_requires_id a) (arg_requires_payment a) (arg_category a)) = Inr ordered
           \<and> out_status (run read_text loads a) = None
           \<and> read_json (written_text (run read_text loads a)) = Some parsed
           \<and> parsed = map (sort_key fst) ordered
           \<and> list_all2 (\<lambda>p r. mset p = mset r) parsed ordered"
proof -
  let ?filtered = "filter_inventory bs (arg_priority a) (arg_requires_phone a)
             (arg_requires_id a) (arg_requires_payment a) (arg_category a)"
  let ?ordered = "sort_key ordering_key ?filtered"
  have "\<forall>b \<in> set ?filtered. name_is_text b"
    using assms(3) filter_inventory_subset by blast
  then have sorted: "sort_brokers ?filtered = Inr ?ordered"
    by (simp add: sort_brokers_def sorted_by_key_typed)
  have run: "run read_text loads a = export_json ?ordered output"
    using assms(1,2) sorted assms(4) by (rule run_export_json)
  have status: "out_status (run read_text loads a) = None"
    by (simp add: run export_json_def split: option.splits)
  have read: "read_json (written_text (run read_text loads a))
              = Some (map (sort_key fst) ?ordered)"
    by (simp add: run read_export_json)
  have same: "list_all2 (\<lambda>p r. mset p = mset r) (map (sort_key fst) ?ordered) ?ordered"
    by (simp add: list_all2_map1 list_all2_same)
  from sorted status read same show ?thesis by blast
qed

theorem export_json_round_trip_witness:
  "read_json (written_text
     (run (\<lambda>p. Content ''inventory'') (\<lambda>t. Decoded (JArray sample_inventory)) sample_args))
   = Some [[(''fee'', JInt 25), (''name'', JStr ''Acme''), (''notes'', JNull),
            (''priority'', JStr ''crucial''), (''requires_phone'', JBool True)],
           [(''name'', JStr ''Zeta''), (''priority'', JStr ''normal''),
            (''requires_phone'', JBool True)]]"
proof -
  let ?bs = "[[(''name'', JStr ''Zeta''), (''priority'', JStr ''normal''),
               (''requires_phone'', JBool True)],
              [(''priority'', JStr ''crucial''), (''name'', JStr ''Acme''),
               (''requires_phone'', JBool True), (''fee'', JInt 25), (''notes'', JNull)],
              [(''name'', JStr ''Beta''), (''requires_phone'', JBool False)]]"
  have 1: "load_inventory (\<lambda>p. Content ''inventory'') (\<lambda>t. Decoded (JArray sample_inventory))
             (arg_inventory sample_args) = Inr sample_inventory"
    by (simp add: load_inventory_def)
  have 2: "as_records sample_inventory = Inr ?bs"
    by (simp add: sample_inventory_def)
  have 3: "\<forall>b \<in> set ?bs. name_is_text b"
    by (simp add: name_is_text_def)
  have 4: "arg_command sample_args = Export Json None"
    by (simp add: sample_args_def)
  have 5: "sort_brokers (filter_inventory ?bs (arg_priority sample_args)
             (arg_requires_phone sample_args) (arg_requires_id sample_args)
             (arg_requires_payment sample_args) (arg_category sample_args))
           = Inr [[(''priority'', JStr ''crucial''), (''name'', JStr ''Acme''),
                   (''requires_phone'', JBool True), (''fee'', JInt 25), (''notes'', JNull)],
                  [(''name'', JStr ''Zeta''), (''priority'', JStr ''normal''),
                   (''requires_phone'', JBool True)]]"
    by code_simp
  have 6: "map (sort_key fst)
             [[(''priority'', JStr ''crucial''), (''name'', JStr ''Acme''),
               (''requires_phone'', JBool True), (''fee'', JInt 25), (''notes'', JNull)],
              [(''name'', JStr ''Zeta''), (''priority'', JStr ''normal''),
               (''requires_phone'', JBool True)]]
           = [[(''fee'', JInt 25), (''name'', JStr ''Acme''), (''notes'', JNull),
               (''priority'', JStr ''crucial''), (''requires_phone'', JBool True)],
              [(''name'', JStr ''Zeta''), (''priority'', JStr ''normal''),
               (''requires_phone'', JBool True)]]"
    by code_simp
  from export_json_round_trip[OF 1 2 3 4] 5 6 show ?thesis
    by auto
qed

end
